theory Spec2Isabelle
  imports Main
begin

section \<open>The PAL loader (Pal/src/db_main.c)\<close>

text \<open>
  A shallow embedding of the bootstrap loader of the platform adaptation layer:
  \<^verbatim>\<open>load_libraries\<close>, \<^verbatim>\<open>insert_envs_from_manifest\<close>, \<^verbatim>\<open>set_debug_type\<close>,
  \<^verbatim>\<open>load_cstring_array\<close> and the manifest, argument and environment stages of
  \<^verbatim>\<open>pal_main\<close>.

  A C string (\<^verbatim>\<open>char*\<close>) is the list of its characters before the terminating NUL.
  A NULL-terminated array of C strings (\<^verbatim>\<open>const char**\<close>, the argument and the
  environment vector) is, for its reader, the list of the strings before the NULL slot.
  The contents of a file are a list of bytes, NUL included.
\<close>

subsection \<open>Constants and types of headers\<close>

text \<open>
  The values of the error codes (pal_error.h), of the URI prefixes and of the size of
  a URI buffer (pal_internal.h) are declared outside db_main.c: they are parameters
  of every function below. So is what the macro \<^verbatim>\<open>strcpy_static\<close> (api.h) leaves in a
  buffer when the string it is given does not fit (\<open>strcpy_static_unfit\<close>, from the
  buffer, the position, the string and the bytes left).
\<close>

record pal_defs =
  PAL_ERROR_INVAL :: int
  PAL_ERROR_NOMEM :: int
  PAL_ERROR_DENIED :: int
  URI_PREFIX_DEV :: string
  URI_PREFIX_FILE :: string
  URI_MAX :: nat
  strcpy_static_unfit :: "string \<Rightarrow> nat \<Rightarrow> string \<Rightarrow> nat \<Rightarrow> string"

text \<open>A handle is a pointer: \<open>None\<close> is NULL.\<close>

type_synonym PAL_HANDLE = "nat option"

datatype pal_access = PAL_ACCESS_RDONLY | PAL_ACCESS_WRONLY
datatype pal_share = PAL_SHARE_OWNER_W
datatype pal_create = PAL_CREATE_TRY

text \<open>
  The ways a function does not return to its caller: a failed \<^verbatim>\<open>assert\<close>; a read or
  write the C standard leaves undefined (a slot that was never written, an index
  outside the allocation, a NULL pointer read as a string); and the fatal exits
  \<^verbatim>\<open>INIT_FAIL(code, msg)\<close> and \<^verbatim>\<open>INIT_FAIL_MANIFEST(code, msg)\<close>, which print the
  message and end the process.
\<close>

datatype halt =
    Assert_Failed
  | Undefined_Behaviour
  | INIT_FAIL int string
  | INIT_FAIL_MANIFEST int string

datatype object_type = OBJECT_PRELOAD | OBJECT_EXEC

text \<open>A name between single quotes, as the messages print the manifest keys.\<close>

definition quoted :: "string \<Rightarrow> string" where
  "quoted s = CHR 0x27 # s @ [CHR 0x27]"

subsection \<open>The host\<close>

text \<open>
  Modelled from the spec: the host stream operations \<^verbatim>\<open>_DkStreamOpen\<close>,
  \<^verbatim>\<open>_DkStreamAttributesQueryByHandle\<close>, \<^verbatim>\<open>_DkStreamRead\<close>, \<^verbatim>\<open>_DkObjectClose\<close>,
  \<^verbatim>\<open>_DkStreamGetName\<close>, the path helper \<^verbatim>\<open>get_norm_path\<close>, the image loader
  \<^verbatim>\<open>load_elf_object\<close> and the allocator \<^verbatim>\<open>malloc\<close> are external collaborators. Each
  is the host's answer to a call: the returned code (negative on failure) and what the
  call leaves in its out parameter (the handle of an open, the name of a stream, the
  normalized path). A stream has pending bytes; the attribute query reports their
  number as \<^verbatim>\<open>pending_size\<close> and a read that does not fail delivers all of them (a
  partial read is a failure of the host-stream contract). \<open>malloc_ok n\<close> says whether
  a request of \<open>n\<close> bytes is granted.
\<close>

record host =
  DkStreamOpen :: "string \<Rightarrow> pal_access \<Rightarrow> pal_share set \<Rightarrow> pal_create set \<Rightarrow> nat
                     \<Rightarrow> int \<times> PAL_HANDLE"
  DkStreamAttributesQueryByHandle :: "PAL_HANDLE \<Rightarrow> int"
  stream_pending :: "PAL_HANDLE \<Rightarrow> string"
  DkStreamRead :: "PAL_HANDLE \<Rightarrow> int"
  DkObjectClose :: "PAL_HANDLE \<Rightarrow> int"
  DkStreamGetName :: "PAL_HANDLE \<Rightarrow> nat \<Rightarrow> int \<times> string"
  get_norm_path :: "string \<Rightarrow> nat \<Rightarrow> int \<times> string"
  load_elf_object :: "string \<Rightarrow> object_type \<Rightarrow> int"
  malloc_ok :: "nat \<Rightarrow> bool"

definition NUL :: char where
  "NUL = CHR 0x00"

text \<open>The size of a pointer, on the 64-bit hosts of the loader.\<close>

definition sizeof_ptr :: nat where
  "sizeof_ptr = 8"

text \<open>
  Modelled from the spec: \<^verbatim>\<open>malloc_copy(mem, n)\<close> (api.h), the first \<open>n\<close> bytes of a
  buffer in a new allocation, or NULL. For a C string of length \<open>n - 1\<close> these are the
  string and its terminator: a copied entry is the entry.
\<close>

definition malloc_copy :: "host \<Rightarrow> string \<Rightarrow> nat \<Rightarrow> string option" where
  "malloc_copy H mem n = (if malloc_ok H n then Some (take n mem) else None)"

text \<open>
  Modelled from the spec: \<^verbatim>\<open>alloc_concat3(a, a_len, b, b_len, c, c_len)\<close> (api.h), the
  three strings one after the other in a new allocation, or NULL: the \<^verbatim>\<open>KEY=VALUE\<close>
  entry of a manifest pair.
\<close>

definition alloc_concat3 :: "host \<Rightarrow> string \<Rightarrow> string \<Rightarrow> string \<Rightarrow> string option" where
  "alloc_concat3 H a b c =
     (if malloc_ok H (length a + length b + length c + 1) then Some (a @ b @ c) else None)"

text \<open>
  A buffer of \<open>n\<close> bytes (\<^verbatim>\<open>char uri_buf[URI_MAX]\<close>, line 276) holds a C string together
  with its terminator. A callee that leaves a longer string in it has written outside
  the array: \<open>None\<close>.
\<close>

definition in_buffer :: "nat \<Rightarrow> string \<Rightarrow> string option" where
  "in_buffer n s = (if length s + 1 \<le> n then Some s else None)"

text \<open>
  Modelled from the spec: \<^verbatim>\<open>strcpy_static(var, str, max)\<close> (api.h) copies a fixed string
  and its terminator to \<^verbatim>\<open>var\<close>, here the position \<open>pos\<close> of a buffer, where \<^verbatim>\<open>max\<close>
  bytes are left; at the end of the normalized executable identity it appends the
  fixed manifest suffix. When the string and its terminator do not fit in the bytes
  left, the buffer holds what the parameter \<open>strcpy_static_unfit\<close> says.
\<close>

definition strcpy_static :: "pal_defs \<Rightarrow> string \<Rightarrow> nat \<Rightarrow> string \<Rightarrow> nat \<Rightarrow> string" where
  "strcpy_static D buf pos str left =
     (if length str + 1 \<le> left then take pos buf @ str
      else strcpy_static_unfit D buf pos str left)"

subsection \<open>Arrays of pointers\<close>

text \<open>
  A slot of a pointer array: never written since \<^verbatim>\<open>malloc\<close>, NULL, or a pointer.
\<close>

datatype 'a slot = Uninit | Null | Ptr 'a

text \<open>The C string that starts at offset \<open>off\<close> of the buffer.\<close>

definition cstr_at :: "string \<Rightarrow> nat \<Rightarrow> string" where
  "cstr_at buf off = takeWhile (\<lambda>c. c \<noteq> NUL) (drop off buf)"

text \<open>
  What a reader of a NULL-terminated array sees: the entries before the first NULL
  slot. Reading a slot that was never written, or past the end of the array, is
  undefined.
\<close>

fun read_array :: "('a \<Rightarrow> string) \<Rightarrow> 'a slot list \<Rightarrow> string list option" where
  "read_array deref [] = None"
| "read_array deref (Uninit # ss) = None"
| "read_array deref (Null # ss) = Some []"
| "read_array deref (Ptr p # ss) = map_option ((#) (deref p)) (read_array deref ss)"

subsection \<open>load_cstring_array\<close>

text \<open>
  Lines 232-235: \<^verbatim>\<open>for (i = 0; i < file_size; i++) if (buf[i] == '\0') count++;\<close>
\<close>

definition count_loop :: "string \<Rightarrow> nat \<Rightarrow> nat" where
  "count_loop buf file_size =
     fold (\<lambda>i count. if buf ! i = NUL then count + 1 else count) [0..<file_size] 0"

text \<open>
  Lines 245-247, on the array and the iterator \<^verbatim>\<open>argv_it\<close> (an index into the array):
  \<^verbatim>\<open>for (i = 0; i < file_size - 1; i++) if (buf[i] == '\0') *(argv_it++) = buf + i + 1;\<close>
  A write outside the array is undefined.
\<close>

definition store_slot :: "'a slot list \<Rightarrow> nat \<Rightarrow> 'a slot \<Rightarrow> 'a slot list option" where
  "store_slot array i v = (if i < length array then Some (array[i := v]) else None)"

definition fill_step :: "string \<Rightarrow> nat \<Rightarrow> (nat slot list \<times> nat) option
                          \<Rightarrow> (nat slot list \<times> nat) option" where
  "fill_step buf i st =
     (case st of
        None \<Rightarrow> None
      | Some (array, argv_it) \<Rightarrow>
          if buf ! i = NUL
          then map_option (\<lambda>a. (a, argv_it + 1)) (store_slot array argv_it (Ptr (i + 1)))
          else Some (array, argv_it))"

definition fill_loop :: "string \<Rightarrow> nat \<Rightarrow> nat slot list \<Rightarrow> nat slot list option" where
  "fill_loop buf file_size array =
     (if file_size > 0
      then map_option fst
             (fold (fill_step buf) [0..<file_size - 1]
                (map_option (\<lambda>a. (a, 1)) (store_slot array 0 (Ptr 0))))
      else Some array)"

text \<open>
  \<^verbatim>\<open>load_cstring_array(uri, res)\<close> returns its code together with \<^verbatim>\<open>*res\<close> after the call.
  On \<^verbatim>\<open>out_fail\<close> the handle is closed and the allocations are freed; the code returned
  is the one of the failed stage.
\<close>

definition load_cstring_array :: "pal_defs \<Rightarrow> host \<Rightarrow> string \<Rightarrow> string list
                                   \<Rightarrow> halt + (int \<times> string list)" where
  "load_cstring_array D H uri res =
     (case DkStreamOpen H uri PAL_ACCESS_RDONLY {} {} 0 of (ret, hdl) \<Rightarrow>
      if ret < 0 then Inr (ret, res)
      else let ret = DkStreamAttributesQueryByHandle H hdl in
      if ret < 0 then Inr (ret, res)
      else let file_size = length (stream_pending H hdl) in
      if \<not> malloc_ok H file_size then Inr (- PAL_ERROR_NOMEM D, res)
      else let ret = DkStreamRead H hdl; buf = stream_pending H hdl in
      if ret < 0 then Inr (ret, res)
      else if file_size > 0 \<and> buf ! (file_size - 1) \<noteq> NUL then Inr (- PAL_ERROR_INVAL D, res)
      else let count = count_loop buf file_size in
      if \<not> malloc_ok H (sizeof_ptr * (count + 1)) then Inr (- PAL_ERROR_NOMEM D, res)
      else
        (case store_slot (replicate (count + 1) Uninit) count Null of
           None \<Rightarrow> Inl Undefined_Behaviour
         | Some array \<Rightarrow>
            (case fill_loop buf file_size array of
               None \<Rightarrow> Inl Undefined_Behaviour
             | Some array \<Rightarrow>
                (case read_array (cstr_at buf) array of
                   None \<Rightarrow> Inl Undefined_Behaviour
                 | Some strs \<Rightarrow> Inr (DkObjectClose H hdl, strs)))))"

subsection \<open>The manifest\<close>

text \<open>
  Modelled from the spec: the parser of the manifest (toml.h) and its lookup helpers
  are external collaborators. The manifest is a read-only
  hierarchical mapping from dotted key path to scalar or nested table, its entries in
  declaration order; a typed accessor answers absent, wrong type, or the value.
  A table holds its key-value pairs and its nested tables; a lookup finds the first
  pair under the key (the keys of a table of a manifest are unique).
\<close>

datatype toml_raw = Toml_String string | Toml_Int int | Toml_Bool bool

datatype toml_table =
  Toml_Table (toml_kval: "(string \<times> toml_raw) list") (toml_tab: "(string \<times> toml_table) list")

text \<open>Modelled from the spec: \<^verbatim>\<open>toml_table_in\<close>, the nested table under a key, or NULL.\<close>

definition toml_table_in :: "toml_table \<Rightarrow> string \<Rightarrow> toml_table option" where
  "toml_table_in t key = map_of (toml_tab t) key"

text \<open>Modelled from the spec: \<^verbatim>\<open>toml_raw_in\<close>, the scalar under a key, or NULL.\<close>

definition toml_raw_in :: "toml_table \<Rightarrow> string \<Rightarrow> toml_raw option" where
  "toml_raw_in t key = map_of (toml_kval t) key"

text \<open>Modelled from the spec: \<^verbatim>\<open>toml_table_nkval\<close>, the number of key-value pairs.\<close>

definition toml_table_nkval :: "toml_table \<Rightarrow> int" where
  "toml_table_nkval t = int (length (toml_kval t))"

text \<open>
  Modelled from the spec: \<^verbatim>\<open>toml_key_in\<close>, the key of the \<open>i\<close>-th key-value pair in
  declaration order, or NULL.
\<close>

definition toml_key_in :: "toml_table \<Rightarrow> nat \<Rightarrow> string option" where
  "toml_key_in t i = (if i < length (toml_kval t) then Some (fst (toml_kval t ! i)) else None)"

text \<open>
  Modelled from the spec: \<^verbatim>\<open>toml_rtos\<close> and \<^verbatim>\<open>toml_rtoi\<close>, the typed readers of a
  scalar: the code (negative for a wrong type) and the value.
\<close>

fun toml_rtos :: "toml_raw \<Rightarrow> int \<times> string option" where
  "toml_rtos (Toml_String s) = (0, Some s)"
| "toml_rtos _ = (- 1, None)"

fun toml_rtoi :: "toml_raw \<Rightarrow> int \<times> int option" where
  "toml_rtoi (Toml_Int i) = (0, Some i)"
| "toml_rtoi _ = (- 1, None)"

text \<open>The segments of a string between the occurrences of a separator.\<close>

fun split_on :: "char \<Rightarrow> string \<Rightarrow> string list" where
  "split_on sep [] = [[]]"
| "split_on sep (c # cs) =
     (if c = sep then [] # split_on sep cs
      else (case split_on sep cs of [] \<Rightarrow> [[c]] | s # ss \<Rightarrow> (c # s) # ss))"

fun toml_raw_in_path :: "toml_table \<Rightarrow> string list \<Rightarrow> toml_raw option" where
  "toml_raw_in_path t [] = None"
| "toml_raw_in_path t [key] = toml_raw_in t key"
| "toml_raw_in_path t (key # keys) =
     (case toml_table_in t key of None \<Rightarrow> None | Some t' \<Rightarrow> toml_raw_in_path t' keys)"

text \<open>
  Modelled from the spec: \<^verbatim>\<open>toml_string_in(root, key, &retval)\<close>, the string under a
  dotted key: the code and \<^verbatim>\<open>retval\<close>, NULL when the key is absent.
\<close>

definition toml_string_in :: "toml_table \<Rightarrow> string \<Rightarrow> int \<times> string option" where
  "toml_string_in root key =
     (case toml_raw_in_path root (split_on CHR ''.'' key) of
        None \<Rightarrow> (0, None)
      | Some raw \<Rightarrow> toml_rtos raw)"

text \<open>
  Modelled from the spec: \<^verbatim>\<open>toml_int_in(root, key, defaultval, &retval)\<close>, the integer
  under a dotted key: the code and \<^verbatim>\<open>retval\<close>, the default when the key is absent.
\<close>

definition toml_int_in :: "toml_table \<Rightarrow> string \<Rightarrow> int \<Rightarrow> int \<times> int option" where
  "toml_int_in root key defaultval =
     (case toml_raw_in_path root (split_on CHR ''.'' key) of
        None \<Rightarrow> (0, Some defaultval)
      | Some raw \<Rightarrow> toml_rtoi raw)"

subsection \<open>load_libraries\<close>

text \<open>
  The loop of lines 52-65. \<open>rest\<close> is the string from \<^verbatim>\<open>c\<close> on, \<open>library_name\<close> the
  characters from \<^verbatim>\<open>library_name\<close> up to \<^verbatim>\<open>c\<close> (so \<^verbatim>\<open>c > library_name\<close> says that it is not
  empty), \<open>loads\<close> the names given to \<^verbatim>\<open>load_elf_object\<close> so far. At the end of the string
  \<^verbatim>\<open>*c\<close> is the terminator and \<^verbatim>\<open>c == preload_str + len\<close>.
\<close>

fun load_libraries_loop :: "host \<Rightarrow> string \<Rightarrow> string \<Rightarrow> string list
                              \<Rightarrow> string list \<times> halt option" where
  "load_libraries_loop H [] library_name loads =
     (if library_name \<noteq> [] then
        (let ret = load_elf_object H library_name OBJECT_PRELOAD in
         if ret < 0
         then (loads @ [library_name], Some (INIT_FAIL (- ret) ''Unable to load preload library''))
         else (loads @ [library_name], None))
      else (loads, None))"
| "load_libraries_loop H (c # rest) library_name loads =
     (if c = CHR '','' then
        (if library_name \<noteq> [] then
           (let ret = load_elf_object H library_name OBJECT_PRELOAD in
            if ret < 0
            then (loads @ [library_name],
                  Some (INIT_FAIL (- ret) ''Unable to load preload library''))
            else load_libraries_loop H rest [] (loads @ [library_name]))
         else load_libraries_loop H rest [] loads)
      else load_libraries_loop H rest (library_name @ [c]) loads)"

text \<open>
  \<^verbatim>\<open>load_libraries()\<close>: the names given to \<^verbatim>\<open>load_elf_object\<close>, in the order of the
  calls, and the fatal exit if there was one.
\<close>

definition load_libraries :: "pal_defs \<Rightarrow> host \<Rightarrow> toml_table option \<Rightarrow> string list \<times> halt option" where
  "load_libraries D H manifest_root =
     (case manifest_root of
        None \<Rightarrow> ([], None)
      | Some root \<Rightarrow>
         (case toml_string_in root ''loader.preload'' of (ret, preload_str) \<Rightarrow>
            if ret < 0
            then ([], Some (INIT_FAIL_MANIFEST (PAL_ERROR_DENIED D)
                             (''Cannot parse '' @ quoted ''loader.preload'')))
            else (case preload_str of
                    None \<Rightarrow> ([], None)
                  | Some str \<Rightarrow>
                      if length str = 0 then ([], None)
                      else load_libraries_loop H str [] [])))"

subsection \<open>insert_envs_from_manifest\<close>

text \<open>The key of an environment entry: the characters before \<^verbatim>\<open>strchr(env, '=')\<close>.\<close>

definition env_key :: "string \<Rightarrow> string" where
  "env_key env = takeWhile (\<lambda>c. c \<noteq> CHR ''='') env"

text \<open>
  Lines 93-105: counts the entries, and those whose key the manifest declares.
  \<open>None\<close> is the early \<^verbatim>\<open>return -PAL_ERROR_INVAL\<close> at an entry without \<^verbatim>\<open>=\<close>.
\<close>

fun count_envs :: "toml_table \<Rightarrow> string list \<Rightarrow> nat \<Rightarrow> nat \<Rightarrow> (nat \<times> nat) option" where
  "count_envs toml_envs [] orig_envs_cnt overwrite_cnt = Some (orig_envs_cnt, overwrite_cnt)"
| "count_envs toml_envs (orig_env # envp) orig_envs_cnt overwrite_cnt =
     (if CHR ''='' \<notin> set orig_env then None
      else count_envs toml_envs envp (orig_envs_cnt + 1)
             (if toml_raw_in toml_envs (env_key orig_env) \<noteq> None
              then overwrite_cnt + 1 else overwrite_cnt))"

text \<open>
  What a loop body does next: leave the function (a halt), return a code, or go on
  with the state.
\<close>

datatype 'a flow = Halt halt | Return int | Next 'a

text \<open>
  Lines 116-132: copies the entries the manifest does not overwrite. The result of
  \<^verbatim>\<open>strchr\<close> is written through unchecked.
\<close>

fun copy_envs :: "pal_defs \<Rightarrow> host \<Rightarrow> toml_table \<Rightarrow> string list \<Rightarrow> string slot list \<Rightarrow> nat
                    \<Rightarrow> (string slot list \<times> nat) flow" where
  "copy_envs D H toml_envs [] new_envp idx = Next (new_envp, idx)"
| "copy_envs D H toml_envs (orig_env # envp) new_envp idx =
     (if CHR ''='' \<notin> set orig_env then Halt Undefined_Behaviour
      else if toml_raw_in toml_envs (env_key orig_env) = None then
        (case malloc_copy H orig_env (length orig_env + 1) of
           None \<Rightarrow> Return (- PAL_ERROR_NOMEM D)
         | Some copy \<Rightarrow>
            (case store_slot new_envp idx (Ptr copy) of
               None \<Rightarrow> Halt Undefined_Behaviour
             | Some new_envp \<Rightarrow> copy_envs D H toml_envs envp new_envp (idx + 1)))
      else copy_envs D H toml_envs envp new_envp idx)"

text \<open>
  The body of the loop of lines 135-152, for the index \<open>i\<close>. The result of
  \<^verbatim>\<open>alloc_concat3\<close> is stored unchecked: NULL when the allocation fails.
\<close>

definition append_env :: "pal_defs \<Rightarrow> host \<Rightarrow> toml_table \<Rightarrow> nat \<Rightarrow> (string slot list \<times> nat) flow
                           \<Rightarrow> (string slot list \<times> nat) flow" where
  "append_env D H toml_envs i st =
     (case st of
        Next (new_envp, idx) \<Rightarrow>
          (case toml_key_in toml_envs i of
             None \<Rightarrow> Halt Assert_Failed
           | Some toml_env_key \<Rightarrow>
              (case toml_raw_in toml_envs toml_env_key of
                 None \<Rightarrow> Halt Assert_Failed
               | Some toml_env_value_raw \<Rightarrow>
                  (case toml_rtos toml_env_value_raw of (ret, toml_env_value) \<Rightarrow>
                     if ret < 0 then Return (- PAL_ERROR_NOMEM D)
                     else (case toml_env_value of
                             None \<Rightarrow> Halt Undefined_Behaviour
                           | Some v \<Rightarrow>
                              (let final_env =
                                 (case alloc_concat3 H toml_env_key ''='' v of
                                    None \<Rightarrow> Null
                                  | Some s \<Rightarrow> Ptr s)
                               in case store_slot new_envp idx final_env of
                                    None \<Rightarrow> Halt Undefined_Behaviour
                                  | Some new_envp \<Rightarrow> Next (new_envp, idx + 1))))))
      | _ \<Rightarrow> st)"

text \<open>
  \<^verbatim>\<open>insert_envs_from_manifest(envpp)\<close> returns its code together with \<^verbatim>\<open>*envpp\<close> after
  the call (\<^verbatim>\<open>envpp\<close> is the address of a variable of \<^verbatim>\<open>pal_main\<close>, never NULL).
  The counts are natural numbers: \<^verbatim>\<open>orig_envs_cnt\<close> is at least \<^verbatim>\<open>overwrite_cnt\<close>
  (lemma \<open>count_envs_Some\<close>), so that the subtraction is exact.
\<close>

definition insert_envs_from_manifest :: "pal_defs \<Rightarrow> host \<Rightarrow> toml_table option \<Rightarrow> string list
                                          \<Rightarrow> halt + (int \<times> string list)" where
  "insert_envs_from_manifest D H manifest_root envp =
     (case manifest_root of
        None \<Rightarrow> Inr (0, envp)
      | Some root \<Rightarrow>
     (case toml_table_in root ''loader'' of
        None \<Rightarrow> Inr (0, envp)
      | Some toml_loader \<Rightarrow>
     (case toml_table_in toml_loader ''env'' of
        None \<Rightarrow> Inr (0, envp)
      | Some toml_envs \<Rightarrow>
      let toml_envs_cnt = toml_table_nkval toml_envs in
      if toml_envs_cnt \<le> 0 then Inr (0, envp)
      else
     (case count_envs toml_envs envp 0 0 of
        None \<Rightarrow> Inr (- PAL_ERROR_INVAL D, envp)
      | Some (orig_envs_cnt, overwrite_cnt) \<Rightarrow>
      let total_envs_cnt = orig_envs_cnt + nat toml_envs_cnt - overwrite_cnt in
      if \<not> malloc_ok H ((total_envs_cnt + 1) * sizeof_ptr)
      then Inr (- PAL_ERROR_NOMEM D, envp)
      else
     (case copy_envs D H toml_envs envp (replicate (total_envs_cnt + 1) Null) 0 of
        Halt h \<Rightarrow> Inl h
      | Return ret \<Rightarrow> Inr (ret, envp)
      | Next (new_envp, idx) \<Rightarrow>
      if \<not> idx < total_envs_cnt then Inl Assert_Failed
      else
     (case fold (append_env D H toml_envs) [0..<nat toml_envs_cnt] (Next (new_envp, idx)) of
        Halt h \<Rightarrow> Inl h
      | Return ret \<Rightarrow> Inr (ret, envp)
      | Next (new_envp, idx) \<Rightarrow>
      if idx \<noteq> total_envs_cnt then Inl Assert_Failed
      else (case read_array id new_envp of
              None \<Rightarrow> Inl Undefined_Behaviour
            | Some envs \<Rightarrow> Inr (0, envs))))))))"

subsection \<open>set_debug_type\<close>

text \<open>
  The field of the control block \<^verbatim>\<open>g_pal_control\<close> that \<^verbatim>\<open>set_debug_type\<close> writes; the
  other fields are the extension of the record.
\<close>

record PAL_CONTROL =
  debug_stream :: PAL_HANDLE

definition set_debug_type :: "pal_defs \<Rightarrow> host \<Rightarrow> toml_table option \<Rightarrow> 'a PAL_CONTROL_scheme
                               \<Rightarrow> halt + 'a PAL_CONTROL_scheme" where
  "set_debug_type D H manifest_root g_pal_control =
     (case manifest_root of
        None \<Rightarrow> Inr g_pal_control
      | Some root \<Rightarrow>
     (case toml_string_in root ''loader.debug_type'' of (ret, debug_type) \<Rightarrow>
      if ret < 0
      then Inl (INIT_FAIL_MANIFEST (PAL_ERROR_DENIED D)
                  (''Cannot parse '' @ quoted ''loader.debug_type''))
      else
     (case debug_type of
        None \<Rightarrow> Inr g_pal_control
      | Some debug_type \<Rightarrow>
     (case
        (if debug_type = ''inline'' then
           Inr (DkStreamOpen H (URI_PREFIX_DEV D @ ''tty'') PAL_ACCESS_WRONLY {} {} 0)
         else if debug_type = ''file'' then
           (case toml_string_in root ''loader.debug_file'' of (ret, debug_file) \<Rightarrow>
              if ret < 0 \<or> debug_file = None
              then Inl (INIT_FAIL_MANIFEST (PAL_ERROR_DENIED D)
                          (''Cannot find/parse '' @ quoted ''loader.debug_file''))
              else Inr (DkStreamOpen H (the debug_file) PAL_ACCESS_WRONLY {PAL_SHARE_OWNER_W}
                          {PAL_CREATE_TRY} 0))
         else if debug_type = ''none'' then Inr (0, None)
         else Inl (INIT_FAIL_MANIFEST (PAL_ERROR_INVAL D)
                     (''Unknown '' @ quoted ''loader.debug_type''
                        @ '' (allowed: `inline`, `file`, `none`)'')))
      of
        Inl h \<Rightarrow> Inl h
      | Inr (ret, handle) \<Rightarrow>
          if ret < 0 then Inl (INIT_FAIL (- ret) ''Cannot open debug stream'')
          else Inr (g_pal_control\<lparr>debug_stream := handle\<rparr>)))))"

subsection \<open>pal_main: the manifest\<close>

text \<open>
  Lines 281-316 of \<^verbatim>\<open>pal_main\<close>, from the two handles the bootloader passes: the URIs
  given to \<^verbatim>\<open>_DkStreamOpen\<close>, in the order of the calls, and either the fatal exit or
  the manifest handle, \<^verbatim>\<open>manifest_uri\<close> and \<^verbatim>\<open>exec_uri\<close> (NULL is \<open>None\<close>).

  Every name goes through \<^verbatim>\<open>uri_buf\<close>, an array of \<^verbatim>\<open>URI_MAX\<close> bytes (line 276): the
  name of a stream and the normalized path are in it after the call, and line 306
  passes \<^verbatim>\<open>sizeof(uri_buf) - len\<close>, the bytes left after the normalized path, to
  \<^verbatim>\<open>strcpy_static\<close>. The result of \<^verbatim>\<open>malloc_copy(uri_buf, ret + 1)\<close> is not checked;
  \<^verbatim>\<open>get_norm_path\<close> reads its first argument.
\<close>

definition pal_main_manifest :: "pal_defs \<Rightarrow> host \<Rightarrow> PAL_HANDLE \<Rightarrow> PAL_HANDLE
    \<Rightarrow> string list \<times> (halt + (PAL_HANDLE \<times> string option \<times> string option))" where
  "pal_main_manifest D H manifest_handle exec_handle =
     (case
        (if exec_handle \<noteq> None then
           (case DkStreamGetName H exec_handle (URI_MAX D) of (ret, name) \<Rightarrow>
              if ret < 0 then Inl (INIT_FAIL (- ret) ''Cannot get executable name'')
              else (case in_buffer (URI_MAX D) name of
                      None \<Rightarrow> Inl Undefined_Behaviour
                    | Some uri_buf \<Rightarrow> Inr (malloc_copy H uri_buf (nat (ret + 1)))))
         else Inr None)
      of
        Inl h \<Rightarrow> ([], Inl h)
      | Inr exec_uri \<Rightarrow>
          if manifest_handle \<noteq> None then
            (case DkStreamGetName H manifest_handle (URI_MAX D) of (ret, name) \<Rightarrow>
               if ret < 0 then ([], Inl (INIT_FAIL (- ret) ''Cannot get manifest name''))
               else (case in_buffer (URI_MAX D) name of
                       None \<Rightarrow> ([], Inl Undefined_Behaviour)
                     | Some uri_buf \<Rightarrow>
                         ([], Inr (manifest_handle, malloc_copy H uri_buf (nat (ret + 1)),
                                   exec_uri))))
          else if exec_handle = None
          then ([], Inl (INIT_FAIL (PAL_ERROR_INVAL D) ''Must have manifest or executable''))
          else
            (case exec_uri of
               None \<Rightarrow> ([], Inl Undefined_Behaviour)
             | Some exec_path \<Rightarrow>
            (case get_norm_path H exec_path (URI_MAX D) of (ret, norm) \<Rightarrow>
               if ret < 0 then ([], Inl (INIT_FAIL (- ret) ''Cannot normalize exec_uri''))
               else
            (case in_buffer (URI_MAX D) norm of
               None \<Rightarrow> ([], Inl Undefined_Behaviour)
             | Some uri_buf \<Rightarrow>
                 let len = length uri_buf;
                     uri_buf = strcpy_static D uri_buf len ''.manifest'' (URI_MAX D - len) in
                 (case DkStreamOpen H uri_buf PAL_ACCESS_RDONLY {} {} 0 of (ret, hdl) \<Rightarrow>
                    if ret \<noteq> 0 then
                      (let manifest_uri = URI_PREFIX_FILE D @ ''manifest'' in
                       case DkStreamOpen H manifest_uri PAL_ACCESS_RDONLY {} {} 0 of
                         (ret, hdl) \<Rightarrow>
                           if ret \<noteq> 0
                           then ([uri_buf, manifest_uri],
                                 Inl (INIT_FAIL (PAL_ERROR_DENIED D) ''Cannot find manifest file''))
                           else ([uri_buf, manifest_uri], Inr (hdl, Some manifest_uri, exec_uri)))
                    else ([uri_buf], Inr (hdl, None, exec_uri)))))))"

subsection \<open>pal_main: the arguments\<close>

text \<open>
  Lines 403-420: \<^verbatim>\<open>loader.argv0_override\<close>. The result is \<^verbatim>\<open>argv0_overridden\<close> and the
  argument vector.
\<close>

definition pal_main_argv0 :: "pal_defs \<Rightarrow> host \<Rightarrow> toml_table option \<Rightarrow> string list
                               \<Rightarrow> halt + (bool \<times> string list)" where
  "pal_main_argv0 D H manifest_root arguments =
     (case manifest_root of
        None \<Rightarrow> Inr (False, arguments)
      | Some root \<Rightarrow>
         (case toml_string_in root ''loader.argv0_override'' of (ret, argv0_override) \<Rightarrow>
            if ret < 0
            then Inl (INIT_FAIL_MANIFEST (PAL_ERROR_DENIED D)
                        (''Cannot parse '' @ quoted ''loader.argv0_override''))
            else (case argv0_override of
                    None \<Rightarrow> Inr (False, arguments)
                  | Some argv0 \<Rightarrow>
                      if arguments = [] then
                        (if \<not> malloc_ok H (sizeof_ptr * 2)
                         then Inl (INIT_FAIL (PAL_ERROR_NOMEM D) ''malloc() failed'')
                         else Inr (True, [argv0]))
                      else Inr (True, arguments[0 := argv0]))))"

text \<open>Lines 422-430: \<^verbatim>\<open>loader.insecure__use_cmdline_argv\<close>.\<close>

definition pal_main_use_cmdline_argv :: "pal_defs \<Rightarrow> toml_table option \<Rightarrow> halt + int" where
  "pal_main_use_cmdline_argv D manifest_root =
     (case manifest_root of
        None \<Rightarrow> Inr 0
      | Some root \<Rightarrow>
         (case toml_int_in root ''loader.insecure__use_cmdline_argv'' 0 of
            (ret, use_cmdline_argv) \<Rightarrow>
              if ret < 0 \<or> (use_cmdline_argv \<noteq> Some 0 \<and> use_cmdline_argv \<noteq> Some 1)
              then Inl (INIT_FAIL_MANIFEST (PAL_ERROR_DENIED D)
                          (''Cannot parse '' @ quoted ''loader.insecure__use_cmdline_argv''
                             @ '' (the value must be 0 or 1)''))
              else Inr (the use_cmdline_argv)))"

text \<open>
  Lines 403-460, the argument stage of \<^verbatim>\<open>pal_main\<close>: from the manifest and the host's
  argument vector to the vector that \<^verbatim>\<open>start_execution\<close> receives, or the fatal exit.
  The warning and the notice printed on the way are not part of the model.
\<close>

definition pal_main_argv :: "pal_defs \<Rightarrow> host \<Rightarrow> toml_table option \<Rightarrow> string list
                              \<Rightarrow> halt + string list" where
  "pal_main_argv D H manifest_root arguments =
     (case pal_main_argv0 D H manifest_root arguments of
        Inl h \<Rightarrow> Inl h
      | Inr (argv0_overridden, arguments) \<Rightarrow>
     (case pal_main_use_cmdline_argv D manifest_root of
        Inl h \<Rightarrow> Inl h
      | Inr use_cmdline_argv \<Rightarrow>
      if use_cmdline_argv \<noteq> 0 then Inr arguments
      else
     (case
        (case manifest_root of
           None \<Rightarrow> Inr None
         | Some root \<Rightarrow>
            (case toml_string_in root ''loader.argv_src_file'' of (ret, argv_src_file) \<Rightarrow>
               if ret < 0
               then Inl (INIT_FAIL_MANIFEST (PAL_ERROR_DENIED D)
                           (''Cannot parse '' @ quoted ''loader.argv_src_file''))
               else Inr argv_src_file))
      of
        Inl h \<Rightarrow> Inl h
      | Inr (Some argv_src_file) \<Rightarrow>
         (case load_cstring_array D H argv_src_file arguments of
            Inl h \<Rightarrow> Inl h
          | Inr (ret, arguments) \<Rightarrow>
              if ret < 0
              then Inl (INIT_FAIL (- ret)
                          (''Cannot load arguments from '' @ quoted ''loader.argv_src_file''))
              else Inr arguments)
      | Inr None \<Rightarrow>
          if \<not> argv0_overridden \<or> length arguments \<ge> 2
          then Inl (INIT_FAIL (PAL_ERROR_INVAL D)
                      (''argv handling wasn't configured in the manifest, but ''
                         @ ''cmdline arguments were specified.''))
          else Inr arguments)))"

subsection \<open>pal_main: the environment\<close>

text \<open>
  Lines 462-507, the environment stage of \<^verbatim>\<open>pal_main\<close>: from the manifest and the host's
  environment vector to the vector that \<^verbatim>\<open>start_execution\<close> receives, or the fatal
  exit. The warning printed on the way is not part of the model.
\<close>

definition pal_main_envs :: "pal_defs \<Rightarrow> host \<Rightarrow> toml_table option \<Rightarrow> string list
                              \<Rightarrow> halt + string list" where
  "pal_main_envs D H manifest_root environments =
     (case
        (case manifest_root of
           None \<Rightarrow> Inr 0
         | Some root \<Rightarrow>
            (case toml_int_in root ''loader.insecure__use_host_env'' 0 of
               (ret, use_host_env) \<Rightarrow>
                 if ret < 0 \<or> (use_host_env \<noteq> Some 0 \<and> use_host_env \<noteq> Some 1)
                 then Inl (INIT_FAIL_MANIFEST (PAL_ERROR_DENIED D)
                             (''Cannot parse '' @ quoted ''loader.insecure__use_host_env''
                                @ '' (the value must be 0 or 1)''))
                 else Inr (the use_host_env)))
      of
        Inl h \<Rightarrow> Inl h
      | Inr use_host_env \<Rightarrow>
     (case
        (if use_host_env \<noteq> 0 then Inr environments
         else if \<not> malloc_ok H sizeof_ptr then Inl (INIT_FAIL (PAL_ERROR_NOMEM D) ''Out of memory'')
         else Inr [])
      of
        Inl h \<Rightarrow> Inl h
      | Inr environments \<Rightarrow>
     (case
        (case manifest_root of
           None \<Rightarrow> Inr None
         | Some root \<Rightarrow>
            (case toml_string_in root ''loader.env_src_file'' of (ret, env_src_file) \<Rightarrow>
               if ret < 0
               then Inl (INIT_FAIL_MANIFEST (PAL_ERROR_DENIED D)
                           (''Cannot parse '' @ quoted ''loader.env_src_file''))
               else Inr env_src_file))
      of
        Inl h \<Rightarrow> Inl h
      | Inr env_src_file \<Rightarrow>
      if use_host_env \<noteq> 0 \<and> env_src_file \<noteq> None
      then Inl (INIT_FAIL (PAL_ERROR_INVAL D)
                  (''Wrong manifest configuration - cannot use ''
                     @ ''loader.insecure__use_host_env and loader.env_src_file at the same time.''))
      else
     (case
        (case env_src_file of
           None \<Rightarrow> Inr environments
         | Some uri \<Rightarrow>
            (case load_cstring_array D H uri environments of
               Inl h \<Rightarrow> Inl h
             | Inr (ret, environments) \<Rightarrow>
                 if ret < 0
                 then Inl (INIT_FAIL (- ret)
                             (''Cannot load environment variables from ''
                                @ quoted ''loader.env_src_file''))
                 else Inr environments))
      of
        Inl h \<Rightarrow> Inl h
      | Inr environments \<Rightarrow>
     (case insert_envs_from_manifest D H manifest_root environments of
        Inl h \<Rightarrow> Inl h
      | Inr (ret, environments) \<Rightarrow>
          if ret < 0
          then Inl (INIT_FAIL (- ret)
                      ''Inserting environment variables from the manifest failed'')
          else Inr environments)))))"

subsection \<open>The sentinel-delimited segments of a file\<close>

text \<open>
  The spec's reading of a source file (section 4.4): the ordered sequence of the
  segments that the terminator byte delimits, each segment ending at its terminator.
  (Bytes after the last terminator would form one more segment; a file that
  \<^verbatim>\<open>load_cstring_array\<close> accepts has none.)
\<close>

fun split_nul :: "string \<Rightarrow> string list" where
  "split_nul [] = []"
| "split_nul (b # bs) =
     (if b = NUL then [] # split_nul bs
      else (case split_nul bs of [] \<Rightarrow> [[b]] | s # ss \<Rightarrow> (b # s) # ss))"

text \<open>
  The offsets that lines 244-247 have stored after the iterations \<open>0, \<dots>, k - 1\<close>:
  the start of the buffer, and the position after every terminator seen.
\<close>

definition nul_offsets :: "string \<Rightarrow> nat \<Rightarrow> nat list" where
  "nul_offsets buf k = 0 # map Suc (filter (\<lambda>i. buf ! i = NUL) [0..<k])"

text \<open>
  A file that the host lets \<^verbatim>\<open>load_cstring_array\<close> read to the end: the open, the
  attribute query, the read and the close succeed, the stream holds \<open>buf\<close>, and the
  allocations are granted.
\<close>

definition readable_file :: "host \<Rightarrow> string \<Rightarrow> string \<Rightarrow> bool" where
  "readable_file H uri buf =
     (case DkStreamOpen H uri PAL_ACCESS_RDONLY {} {} 0 of (r, hdl) \<Rightarrow>
        0 \<le> r \<and> 0 \<le> DkStreamAttributesQueryByHandle H hdl \<and> stream_pending H hdl = buf
      \<and> malloc_ok H (length buf) \<and> 0 \<le> DkStreamRead H hdl
      \<and> malloc_ok H (sizeof_ptr * (count_loop buf (length buf) + 1))
      \<and> 0 \<le> DkObjectClose H hdl)"

subsection \<open>Readings of the manifest\<close>

text \<open>
  The argument vector after lines 410-419, when the allocation of line 413 is
  granted: the override, if there is one, is the first slot.
\<close>

definition argv0_applied :: "string option \<Rightarrow> string list \<Rightarrow> string list" where
  "argv0_applied argv0_override arguments =
     (case argv0_override of
        None \<Rightarrow> arguments
      | Some argv0 \<Rightarrow> if arguments = [] then [argv0] else arguments[0 := argv0])"

text \<open>
  An option is not set: there is no manifest, or the lookup finds nothing (for the
  switch: finds nothing, or the value 0, which is also the default).
\<close>

definition argv_src_file_unset :: "toml_table option \<Rightarrow> bool" where
  "argv_src_file_unset manifest_root =
     (case manifest_root of
        None \<Rightarrow> True
      | Some root \<Rightarrow> toml_string_in root ''loader.argv_src_file'' = (0, None))"

definition use_cmdline_argv_unset :: "toml_table option \<Rightarrow> bool" where
  "use_cmdline_argv_unset manifest_root =
     (case manifest_root of
        None \<Rightarrow> True
      | Some root \<Rightarrow> toml_int_in root ''loader.insecure__use_cmdline_argv'' 0 = (0, Some 0))"

definition argv0_override_unset :: "toml_table option \<Rightarrow> bool" where
  "argv0_override_unset manifest_root =
     (case manifest_root of
        None \<Rightarrow> True
      | Some root \<Rightarrow> toml_string_in root ''loader.argv0_override'' = (0, None))"

subsection \<open>Readings of the preload string and of the environment table\<close>

text \<open>
  The spec's reading of \<^verbatim>\<open>loader.preload\<close> (section 4.5): the string split on commas,
  without the empty segments.
\<close>

definition preload_segments :: "string \<Rightarrow> string list" where
  "preload_segments preload_str = filter (\<lambda>s. s \<noteq> []) (split_on CHR '','' preload_str)"

text \<open>
  Loading the names of a list one after the other, up to the first failure: the names
  given to \<^verbatim>\<open>load_elf_object\<close> and the fatal exit, if any.
\<close>

fun load_each :: "host \<Rightarrow> string list \<Rightarrow> string list \<times> halt option" where
  "load_each H [] = ([], None)"
| "load_each H (name # names) =
     (let ret = load_elf_object H name OBJECT_PRELOAD in
      if ret < 0 then ([name], Some (INIT_FAIL (- ret) ''Unable to load preload library''))
      else (case load_each H names of (loads, h) \<Rightarrow> (name # loads, h)))"

text \<open>
  The key-value pairs that the manifest declares under \<^verbatim>\<open>loader.env\<close>, in declaration
  order; none when there is no manifest or no such table.
\<close>

definition manifest_envs :: "toml_table option \<Rightarrow> (string \<times> toml_raw) list" where
  "manifest_envs manifest_root =
     (case manifest_root of
        None \<Rightarrow> []
      | Some root \<Rightarrow>
         (case toml_table_in root ''loader'' of
            None \<Rightarrow> []
          | Some toml_loader \<Rightarrow>
             (case toml_table_in toml_loader ''env'' of
                None \<Rightarrow> []
              | Some toml_envs \<Rightarrow> toml_kval toml_envs)))"

text \<open>A table of strings, as key-value pairs of a manifest.\<close>

definition env_table :: "(string \<times> string) list \<Rightarrow> (string \<times> toml_raw) list" where
  "env_table table = map (\<lambda>(k, v). (k, Toml_String v)) table"

text \<open>The environment entry \<^verbatim>\<open>KEY=VALUE\<close> of a pair.\<close>

definition env_entry :: "string \<times> string \<Rightarrow> string" where
  "env_entry kv = fst kv @ ''='' @ snd kv"

subsection \<open>A sample configuration\<close>

text \<open>
  Concrete values for the parameters, to run the definitions on: the constants, and a
  host on which every call succeeds, every open yields handle 3 and every stream
  holds the given bytes.
\<close>

definition sample_defs :: pal_defs where
  "sample_defs = \<lparr>PAL_ERROR_INVAL = 4, PAL_ERROR_NOMEM = 16, PAL_ERROR_DENIED = 6,
     URI_PREFIX_DEV = ''dev:'', URI_PREFIX_FILE = ''file:'', URI_MAX = 4096,
     strcpy_static_unfit = (\<lambda>buf pos str left. buf)\<rparr>"

definition sample_host :: "string \<Rightarrow> host" where
  "sample_host bytes = \<lparr>DkStreamOpen = (\<lambda>uri access share create options. (0, Some 3)),
     DkStreamAttributesQueryByHandle = (\<lambda>hdl. 0),
     stream_pending = (\<lambda>hdl. bytes),
     DkStreamRead = (\<lambda>hdl. int (length bytes)),
     DkObjectClose = (\<lambda>hdl. 0),
     DkStreamGetName = (\<lambda>hdl n. (9, ''file:prog'')),
     get_norm_path = (\<lambda>path n. (0, path)),
     load_elf_object = (\<lambda>name type. 0),
     malloc_ok = (\<lambda>n. True)\<rparr>"

text \<open>The same host, with the given answer to every open.\<close>

definition sample_host_open :: "(string \<Rightarrow> int \<times> PAL_HANDLE) \<Rightarrow> host" where
  "sample_host_open answer =
     (sample_host [])\<lparr>DkStreamOpen := (\<lambda>uri access share create options. answer uri)\<rparr>"

text \<open>A manifest with the given key-value pairs in its table \<^verbatim>\<open>loader\<close>.\<close>

definition manifest_of :: "(string \<times> toml_raw) list \<Rightarrow> toml_table" where
  "manifest_of loader = Toml_Table [] [(''loader'', Toml_Table loader [])]"

text \<open>
  The control block when the program starts: \<^verbatim>\<open>g_pal_control\<close> is a static object
  (line 22), hence zero.
\<close>

definition g_pal_control_init :: PAL_CONTROL where
  "g_pal_control_init = \<lparr>debug_stream = None\<rparr>"

text \<open>The same host, with the given answer to every load of an object.\<close>

definition sample_host_load :: "(string \<Rightarrow> int) \<Rightarrow> host" where
  "sample_host_load answer =
     (sample_host [])\<lparr>load_elf_object := (\<lambda>name type. answer name)\<rparr>"

text \<open>A manifest with the given key-value pairs in its table \<^verbatim>\<open>loader.env\<close>.\<close>

definition manifest_of_env :: "(string \<times> toml_raw) list \<Rightarrow> toml_table" where
  "manifest_of_env env =
     Toml_Table [] [(''loader'', Toml_Table [] [(''env'', Toml_Table env [])])]"

text \<open>The same, with \<^verbatim>\<open>loader.insecure__use_host_env = 1\<close>.\<close>

definition manifest_of_host_env :: "(string \<times> toml_raw) list \<Rightarrow> toml_table" where
  "manifest_of_host_env env =
     Toml_Table [] [(''loader'', Toml_Table [(''insecure__use_host_env'', Toml_Int 1)]
                                   [(''env'', Toml_Table env [])])]"

section \<open>Properties\<close>

subsection \<open>load_cstring_array\<close>

lemma load_cstring_array_read:
  assumes "DkStreamOpen H uri PAL_ACCESS_RDONLY {} {} 0 = (r, hdl)" "0 \<le> r"
    and "0 \<le> DkStreamAttributesQueryByHandle H hdl"
    and "malloc_ok H (length (stream_pending H hdl))"
    and "0 \<le> DkStreamRead H hdl"
  shows "load_cstring_array D H uri res =
     (let buf = stream_pending H hdl; file_size = length buf in
      if file_size > 0 \<and> buf ! (file_size - 1) \<noteq> NUL then Inr (- PAL_ERROR_INVAL D, res)
      else let count = count_loop buf file_size in
      if \<not> malloc_ok H (sizeof_ptr * (count + 1)) then Inr (- PAL_ERROR_NOMEM D, res)
      else
        (case store_slot (replicate (count + 1) Uninit) count Null of
           None \<Rightarrow> Inl Undefined_Behaviour
         | Some array \<Rightarrow>
            (case fill_loop buf file_size array of
               None \<Rightarrow> Inl Undefined_Behaviour
             | Some array \<Rightarrow>
                (case read_array (cstr_at buf) array of
                   None \<Rightarrow> Inl Undefined_Behaviour
                 | Some strs \<Rightarrow> Inr (DkObjectClose H hdl, strs)))))"
  using assms by (simp add: load_cstring_array_def Let_def)

lemma count_fold:
  "fold (\<lambda>i count. if P i then count + 1 else count) xs c = c + length (filter P xs)"
  by (induction xs arbitrary: c) auto

lemma count_loop_filter:
  "count_loop buf n = length (filter (\<lambda>i. buf ! i = NUL) [0..<n])"
  by (simp add: count_loop_def count_fold)

lemma read_array_ptrs:
  "read_array deref (map Ptr xs @ Null # rest) = Some (map deref xs)"
  by (induction xs) auto

lemma filter_upt_mono:
  "k \<le> m \<Longrightarrow> length (filter P [0..<k]) \<le> length (filter P [0..<m])"
proof -
  assume "k \<le> m"
  then have "[0..<m] = [0..<k] @ [k..<m]"
    by (metis le_add_diff_inverse upt_add_eq_append zero_le)
  then show ?thesis by simp
qed

lemma fill_step_Some:
  "fill_step buf i (Some (array, argv_it)) =
     (if buf ! i = NUL
      then map_option (\<lambda>a. (a, argv_it + 1)) (store_slot array argv_it (Ptr (i + 1)))
      else Some (array, argv_it))"
  by (simp add: fill_step_def)

lemma fill_invariant:
  assumes "Suc (length (filter (\<lambda>i. buf ! i = NUL) [0..<m])) = c" and "k \<le> m"
  shows "fold (fill_step buf) [0..<k] (Some (Ptr 0 # replicate (c - 1) Uninit @ [Null], 1))
       = Some (map Ptr (nul_offsets buf k) @ replicate (c - length (nul_offsets buf k)) Uninit
                 @ [Null], length (nul_offsets buf k))"
  using assms(2)
proof (induction k)
  case 0
  then show ?case by (simp add: nul_offsets_def)
next
  case (Suc k)
  let ?P = "\<lambda>i. buf ! i = NUL"
  let ?s0 = "Some (Ptr 0 # replicate (c - 1) Uninit @ [Null], 1)"
  have IH: "fold (fill_step buf) [0..<k] ?s0
       = Some (map Ptr (nul_offsets buf k) @ replicate (c - length (nul_offsets buf k)) Uninit
                 @ [Null], length (nul_offsets buf k))"
    using Suc by simp
  have step: "fold (fill_step buf) [0..<Suc k] ?s0
       = fill_step buf k (Some (map Ptr (nul_offsets buf k)
            @ replicate (c - length (nul_offsets buf k)) Uninit @ [Null],
            length (nul_offsets buf k)))"
    by (simp only: upt_Suc_append [OF le0] fold_append o_apply fold_simps IH)
  show ?case
  proof (cases "?P k")
    case False
    then have "nul_offsets buf (Suc k) = nul_offsets buf k" by (simp add: nul_offsets_def)
    with False show ?thesis unfolding step fill_step_Some by simp
  next
    case True
    then have off: "nul_offsets buf (Suc k) = nul_offsets buf k @ [Suc k]"
      by (simp add: nul_offsets_def)
    have "length (filter ?P [0..<Suc k]) \<le> length (filter ?P [0..<m])"
      using Suc.prems by (rule filter_upt_mono)
    with True have lt: "length (nul_offsets buf k) < c"
      using assms(1) by (simp add: nul_offsets_def)
    then obtain j where j: "c - length (nul_offsets buf k) = Suc j"
      by (metis Suc_diff_Suc)
    have j': "c - Suc (length (nul_offsets buf k)) = j"
      using j by simp
    show ?thesis
      unfolding step fill_step_Some
      using True by (simp add: store_slot_def j j' off list_update_append)
  qed
qed

lemma fill_loop_result:
  assumes "buf \<noteq> []" and "last buf = NUL"
  shows "\<exists>array. store_slot (replicate (count_loop buf (length buf) + 1) Uninit)
                    (count_loop buf (length buf)) Null = Some array
       \<and> fill_loop buf (length buf) array
           = Some (map Ptr (nul_offsets buf (length buf - 1)) @ [Null])"
proof -
  let ?P = "\<lambda>i. buf ! i = NUL"
  let ?n = "length buf"
  let ?c = "count_loop buf ?n"
  have n: "[0..<?n] = [0..<?n - 1] @ [?n - 1]"
    using assms(1) by (metis Suc_diff_1 length_greater_0_conv upt_Suc_append zero_le)
  have l: "?P (?n - 1)" using assms by (simp add: last_conv_nth)
  have "filter ?P [0..<?n] = filter ?P [0..<?n - 1] @ [?n - 1]"
    using l by (subst n) simp
  then have c: "Suc (length (filter ?P [0..<?n - 1])) = ?c"
    unfolding count_loop_filter by simp
  have a: "store_slot (replicate (?c + 1) Uninit) ?c Null = Some (replicate ?c Uninit @ [Null])"
    by (simp add: store_slot_def replicate_append_same flip: replicate_Suc)
      (metis list_update_length append_Nil2 length_replicate replicate_append_same replicate_Suc)
  obtain c' where c': "?c = Suc c'" using c by metis
  have b: "store_slot (replicate ?c Uninit @ [Null]) 0 (Ptr 0)
             = Some (Ptr 0 # replicate (?c - 1) Uninit @ [Null])"
    by (simp add: store_slot_def c')
  have len: "length (nul_offsets buf (?n - 1)) = ?c"
    using c by (simp add: nul_offsets_def)
  have "fill_loop buf ?n (replicate ?c Uninit @ [Null])
          = Some (map Ptr (nul_offsets buf (?n - 1)) @ [Null])"
    using assms(1) fill_invariant [OF c order_refl] len
    by (simp add: fill_loop_def b)
  with a show ?thesis by blast
qed


lemma cstr_at_Cons_0:
  "cstr_at (b # bs) 0 = (if b = NUL then [] else b # cstr_at bs 0)"
  by (simp add: cstr_at_def)

lemma cstr_at_Cons_Suc: "cstr_at (b # bs) (Suc j) = cstr_at bs j"
  by (simp add: cstr_at_def)

lemma nul_offsets_Cons:
  assumes "bs \<noteq> []"
  shows "nul_offsets (b # bs) (length bs) =
           0 # (if b = NUL then [Suc 0] else [])
             @ tl (map Suc (nul_offsets bs (length bs - Suc 0)))"
proof -
  have "[0..<length bs] = 0 # map Suc [0..<length bs - Suc 0]"
    using assms by (metis length_greater_0_conv map_Suc_upt Suc_pred upt_conv_Cons)
  then show ?thesis
    by (simp add: nul_offsets_def filter_map o_def)
qed

lemma nul_offsets_split:
  assumes "buf \<noteq> []" and "last buf = NUL"
  shows "map (cstr_at buf) (nul_offsets buf (length buf - Suc 0)) = split_nul buf"
  using assms
proof (induction buf)
  case Nil
  then show ?case by simp
next
  case (Cons b bs)
  show ?case
  proof (cases "bs = []")
    case True
    with Cons.prems show ?thesis by (simp add: nul_offsets_def cstr_at_def)
  next
    case False
    with Cons have IH: "map (cstr_at bs) (nul_offsets bs (length bs - Suc 0)) = split_nul bs"
      by simp
    obtain rest where rest: "nul_offsets bs (length bs - Suc 0) = 0 # rest"
      by (simp add: nul_offsets_def)
    have sp: "split_nul bs = cstr_at bs 0 # map (cstr_at bs) rest"
      using IH rest by simp
    show ?thesis
      using False
      by (simp add: nul_offsets_Cons rest sp cstr_at_Cons_0 cstr_at_Cons_Suc o_def)
  qed
qed

lemma load_cstring_array_table:
  assumes "DkStreamOpen H uri PAL_ACCESS_RDONLY {} {} 0 = (r, hdl)" "0 \<le> r"
    and "0 \<le> DkStreamAttributesQueryByHandle H hdl"
    and "buf = stream_pending H hdl"
    and "malloc_ok H (length buf)"
    and "0 \<le> DkStreamRead H hdl"
    and "buf = [] \<or> last buf = NUL"
    and "malloc_ok H (sizeof_ptr * (count_loop buf (length buf) + 1))"
  shows "load_cstring_array D H uri res = Inr (DkObjectClose H hdl, split_nul buf)"
proof (cases "buf = []")
  case True
  with assms show ?thesis
    by (simp add: load_cstring_array_def Let_def count_loop_def store_slot_def fill_loop_def)
next
  case False
  with assms(7) have l: "last buf = NUL" by simp
  from fill_loop_result [OF False l] obtain array where
    a: "store_slot (replicate (count_loop buf (length buf) + 1) Uninit)
          (count_loop buf (length buf)) Null = Some array"
    and f: "fill_loop buf (length buf) array
          = Some (map Ptr (nul_offsets buf (length buf - 1)) @ [Null])"
    by blast
  have n: "buf ! (length buf - 1) = NUL" using False l by (simp add: last_conv_nth)
  have m: "malloc_ok H (length (stream_pending H hdl))" using assms(4,5) by simp
  have sp: "map (cstr_at buf) (nul_offsets buf (length buf - 1)) = split_nul buf"
    using nul_offsets_split [OF False l] by simp
  have "load_cstring_array D H uri res =
     (case read_array (cstr_at buf) (map Ptr (nul_offsets buf (length buf - 1)) @ [Null]) of
        None \<Rightarrow> Inl Undefined_Behaviour
      | Some strs \<Rightarrow> Inr (DkObjectClose H hdl, strs))"
    unfolding load_cstring_array_read [OF assms(1,2,3) m assms(6)] Let_def
      assms(4) [symmetric]
    using assms(8) n False by (simp only: a f if_False if_True option.case simp_thms)
  then show ?thesis
    by (simp only: read_array_ptrs sp option.case)
qed

text \<open>
  On the path without failure the code returned is the one of closing the handle: when
  the close fails, \<^verbatim>\<open>load_cstring_array\<close> returns a negative code although the table is
  published.
\<close>

lemma load_cstring_array_close:
  assumes "DkStreamOpen H uri PAL_ACCESS_RDONLY {} {} 0 = (r, hdl)" "0 \<le> r"
    and "0 \<le> DkStreamAttributesQueryByHandle H hdl"
    and "\<forall>n. malloc_ok H n"
    and "0 \<le> DkStreamRead H hdl"
    and "stream_pending H hdl = [] \<or> last (stream_pending H hdl) = NUL"
    and "DkObjectClose H hdl < 0"
  shows "\<exists>ret<0. load_cstring_array D H uri res = Inr (ret, split_nul (stream_pending H hdl))"
  using load_cstring_array_table [OF assms(1,2,3) refl _ assms(5,6)] assms(4,7) by simp

text \<open>
  C4. When the file opens, its attributes are read, the allocations are granted and
  the read succeeds: a non-empty buffer whose last byte is not the terminator is
  rejected with \<^verbatim>\<open>-PAL_ERROR_INVAL\<close> and \<^verbatim>\<open>*res\<close> is as before; an empty file yields the
  table with no entry; the bytes \<^verbatim>\<open>a\0b\0\<close> yield the entries \<^verbatim>\<open>a\<close>, \<^verbatim>\<open>b\<close> in this order;
  and any buffer that is empty or ends with the terminator yields its
  sentinel-delimited segments, in the order of the file. In the cases without
  rejection the code returned is the one of closing the handle.
\<close>

theorem load_cstring_array_format:
  assumes "DkStreamOpen H uri PAL_ACCESS_RDONLY {} {} 0 = (r, hdl)" "0 \<le> r"
    and "0 \<le> DkStreamAttributesQueryByHandle H hdl"
    and "\<forall>n. malloc_ok H n"
    and "0 \<le> DkStreamRead H hdl"
  shows "(stream_pending H hdl \<noteq> [] \<and> last (stream_pending H hdl) \<noteq> NUL \<longrightarrow>
            load_cstring_array D H uri res = Inr (- PAL_ERROR_INVAL D, res))
       \<and> (stream_pending H hdl = [] \<longrightarrow>
            load_cstring_array D H uri res = Inr (DkObjectClose H hdl, []))
       \<and> (stream_pending H hdl = [CHR ''a'', NUL, CHR ''b'', NUL] \<longrightarrow>
            load_cstring_array D H uri res = Inr (DkObjectClose H hdl, [''a'', ''b'']))
       \<and> (stream_pending H hdl = buf \<and> (buf = [] \<or> last buf = NUL) \<longrightarrow>
            load_cstring_array D H uri res = Inr (DkObjectClose H hdl, split_nul buf))"
proof (intro conjI impI)
  have m: "malloc_ok H (length (stream_pending H hdl))" using assms(4) by simp
  note rd = load_cstring_array_read [OF assms(1,2,3) m assms(5)]
  {
    assume "stream_pending H hdl = buf \<and> (buf = [] \<or> last buf = NUL)"
    then show "load_cstring_array D H uri res = Inr (DkObjectClose H hdl, split_nul buf)"
      using load_cstring_array_table [OF assms(1,2,3) _ _ assms(5), of buf D res] assms(4)
      by simp
  }
  {
    assume "stream_pending H hdl \<noteq> [] \<and> last (stream_pending H hdl) \<noteq> NUL"
    then have "length (stream_pending H hdl) > 0
        \<and> stream_pending H hdl ! (length (stream_pending H hdl) - 1) \<noteq> NUL"
      by (cases "stream_pending H hdl" rule: rev_cases) auto
    then show "load_cstring_array D H uri res = Inr (- PAL_ERROR_INVAL D, res)"
      unfolding rd Let_def by simp
  }
  {
    assume "stream_pending H hdl = []"
    then show "load_cstring_array D H uri res = Inr (DkObjectClose H hdl, [])"
      using assms(4) by (simp add: rd Let_def count_loop_def store_slot_def fill_loop_def)
  }
  {
    assume "stream_pending H hdl = [CHR ''a'', NUL, CHR ''b'', NUL]"
    then show "load_cstring_array D H uri res = Inr (DkObjectClose H hdl, [''a'', ''b''])"
      using assms(4) by (simp add: rd Let_def count_loop_def store_slot_def fill_loop_def
          fill_step_def cstr_at_def NUL_def upt_rec)
  }
qed

theorem load_cstring_array_format_witness:
  "load_cstring_array sample_defs (sample_host ''ab'') ''file:args'' [''prog'', ''x'']
     = Inr (- 4, [''prog'', ''x''])
   \<and> load_cstring_array sample_defs (sample_host []) ''file:args'' [''prog'', ''x'']
     = Inr (0, [])
   \<and> load_cstring_array sample_defs (sample_host [CHR ''a'', NUL, CHR ''b'', NUL])
        ''file:args'' [''prog'', ''x'']
     = Inr (0, [''a'', ''b''])
   \<and> load_cstring_array sample_defs (sample_host [NUL, CHR ''b'', CHR ''c'', NUL])
        ''file:args'' [''prog'', ''x'']
     = Inr (0, [[], ''bc''])"
  using load_cstring_array_format [of "sample_host ''ab''" "''file:args''" 0 "Some 3"
      sample_defs "[''prog'', ''x'']" "[]"]
    load_cstring_array_format [of "sample_host []" "''file:args''" 0 "Some 3"
      sample_defs "[''prog'', ''x'']" "[]"]
    load_cstring_array_format [of "sample_host [CHR ''a'', NUL, CHR ''b'', NUL]"
      "''file:args''" 0 "Some 3" sample_defs "[''prog'', ''x'']" "[]"]
    load_cstring_array_format [of "sample_host [NUL, CHR ''b'', CHR ''c'', NUL]"
      "''file:args''" 0 "Some 3" sample_defs "[''prog'', ''x'']"
      "[NUL, CHR ''b'', CHR ''c'', NUL]"]
  by (simp add: sample_host_def sample_defs_def NUL_def)

text \<open>
  C5. With positive error codes: when the open, the attribute query, the allocation
  of the buffer, the read, the format check or the allocation of the table fails,
  \<^verbatim>\<open>load_cstring_array\<close> returns a negative code and \<^verbatim>\<open>*res\<close> is what it was.
\<close>

theorem load_cstring_array_failure:
  assumes "0 < PAL_ERROR_NOMEM D" and "0 < PAL_ERROR_INVAL D"
    and "DkStreamOpen H uri PAL_ACCESS_RDONLY {} {} 0 = (r, hdl)"
    and "buf = stream_pending H hdl"
    and "r < 0
       \<or> DkStreamAttributesQueryByHandle H hdl < 0
       \<or> \<not> malloc_ok H (length buf)
       \<or> DkStreamRead H hdl < 0
       \<or> (buf \<noteq> [] \<and> last buf \<noteq> NUL)
       \<or> \<not> malloc_ok H (sizeof_ptr * (count_loop buf (length buf) + 1))"
  shows "\<exists>ret<0. load_cstring_array D H uri res = Inr (ret, res)"
  using assms by (auto simp add: load_cstring_array_def Let_def last_conv_nth)

theorem load_cstring_array_failure_witness:
  "0 < PAL_ERROR_NOMEM sample_defs \<and> 0 < PAL_ERROR_INVAL sample_defs
   \<and> DkStreamOpen (sample_host ''ab'') ''file:args'' PAL_ACCESS_RDONLY {} {} 0 = (0, Some 3)
   \<and> last (stream_pending (sample_host ''ab'') (Some 3)) \<noteq> NUL
   \<and> (\<exists>ret<0. load_cstring_array sample_defs (sample_host ''ab'') ''file:args'' [''prog'']
                 = Inr (ret, [''prog'']))"
  using load_cstring_array_failure [of sample_defs "sample_host ''ab''" "''file:args''" 0
      "Some 3" "''ab''" "[''prog'']"]
  by (simp add: sample_host_def sample_defs_def NUL_def)

subsection \<open>set_debug_type\<close>

text \<open>
  C7. What \<^verbatim>\<open>set_debug_type\<close> does for each value of \<^verbatim>\<open>loader.debug_type\<close>: unset (or no
  manifest), the control block stays as it is, without a debug stream; \<^verbatim>\<open>none\<close>
  publishes no stream; \<^verbatim>\<open>inline\<close> opens the console device for write and publishes the
  handle; \<^verbatim>\<open>file\<close> without a readable \<^verbatim>\<open>loader.debug_file\<close> is fatal, and with it opens
  that path for write, shared for the owner's write, created if missing; any other
  string is fatal. An open that fails is fatal.
\<close>

theorem set_debug_type_cases:
  assumes "toml_string_in root ''loader.debug_type'' = (0, debug_type)"
  shows "(debug_type = None \<longrightarrow>
            set_debug_type D H (Some root) g_pal_control = Inr g_pal_control)
       \<and> (debug_type = Some ''none'' \<longrightarrow>
            set_debug_type D H (Some root) g_pal_control
              = Inr (g_pal_control\<lparr>debug_stream := None\<rparr>))
       \<and> (debug_type = Some ''inline'' \<longrightarrow>
            set_debug_type D H (Some root) g_pal_control
              = (case DkStreamOpen H (URI_PREFIX_DEV D @ ''tty'') PAL_ACCESS_WRONLY {} {} 0 of
                   (ret, handle) \<Rightarrow>
                     if ret < 0 then Inl (INIT_FAIL (- ret) ''Cannot open debug stream'')
                     else Inr (g_pal_control\<lparr>debug_stream := handle\<rparr>)))
       \<and> (debug_type = Some ''file''
            \<and> (fst (toml_string_in root ''loader.debug_file'') < 0
                 \<or> snd (toml_string_in root ''loader.debug_file'') = None) \<longrightarrow>
            set_debug_type D H (Some root) g_pal_control
              = Inl (INIT_FAIL_MANIFEST (PAL_ERROR_DENIED D)
                       (''Cannot find/parse '' @ quoted ''loader.debug_file'')))
       \<and> (debug_type = Some ''file''
            \<and> toml_string_in root ''loader.debug_file'' = (0, Some debug_file) \<longrightarrow>
            set_debug_type D H (Some root) g_pal_control
              = (case DkStreamOpen H debug_file PAL_ACCESS_WRONLY {PAL_SHARE_OWNER_W}
                        {PAL_CREATE_TRY} 0 of
                   (ret, handle) \<Rightarrow>
                     if ret < 0 then Inl (INIT_FAIL (- ret) ''Cannot open debug stream'')
                     else Inr (g_pal_control\<lparr>debug_stream := handle\<rparr>)))
       \<and> (debug_type = Some other \<and> other \<noteq> ''inline'' \<and> other \<noteq> ''file''
            \<and> other \<noteq> ''none'' \<longrightarrow>
            set_debug_type D H (Some root) g_pal_control
              = Inl (INIT_FAIL_MANIFEST (PAL_ERROR_INVAL D)
                       (''Unknown '' @ quoted ''loader.debug_type''
                          @ '' (allowed: `inline`, `file`, `none`)'')))
       \<and> set_debug_type D H None g_pal_control = Inr g_pal_control"
  using assms
  by (auto simp add: set_debug_type_def split: prod.splits)

theorem set_debug_type_cases_witness:
  "set_debug_type sample_defs (sample_host []) (Some (manifest_of [])) g_pal_control_init
     = Inr \<lparr>debug_stream = None\<rparr>
   \<and> set_debug_type sample_defs (sample_host [])
        (Some (manifest_of [(''debug_type'', Toml_String ''none'')])) \<lparr>debug_stream = Some 7\<rparr>
     = Inr \<lparr>debug_stream = None\<rparr>
   \<and> set_debug_type sample_defs (sample_host [])
        (Some (manifest_of [(''debug_type'', Toml_String ''inline'')])) g_pal_control_init
     = Inr \<lparr>debug_stream = Some 3\<rparr>
   \<and> set_debug_type sample_defs (sample_host [])
        (Some (manifest_of [(''debug_type'', Toml_String ''file'')])) g_pal_control_init
     = Inl (INIT_FAIL_MANIFEST 6 (''Cannot find/parse '' @ quoted ''loader.debug_file''))
   \<and> set_debug_type sample_defs (sample_host [])
        (Some (manifest_of [(''debug_type'', Toml_String ''file''),
                            (''debug_file'', Toml_String ''file:log'')])) g_pal_control_init
     = Inr \<lparr>debug_stream = Some 3\<rparr>
   \<and> set_debug_type sample_defs (sample_host [])
        (Some (manifest_of [(''debug_type'', Toml_String ''tty'')])) g_pal_control_init
     = Inl (INIT_FAIL_MANIFEST 4 (''Unknown '' @ quoted ''loader.debug_type''
                          @ '' (allowed: `inline`, `file`, `none`)''))"
  using
    set_debug_type_cases [of "manifest_of []" None sample_defs "sample_host []"
      g_pal_control_init "[]" "[]"]
    set_debug_type_cases [of "manifest_of [(''debug_type'', Toml_String ''none'')]"
      "Some ''none''" sample_defs "sample_host []" "\<lparr>debug_stream = Some 7\<rparr>" "[]" "[]"]
    set_debug_type_cases [of "manifest_of [(''debug_type'', Toml_String ''inline'')]"
      "Some ''inline''" sample_defs "sample_host []" g_pal_control_init "[]" "[]"]
    set_debug_type_cases [of "manifest_of [(''debug_type'', Toml_String ''file'')]"
      "Some ''file''" sample_defs "sample_host []" g_pal_control_init "[]" "[]"]
    set_debug_type_cases [of "manifest_of [(''debug_type'', Toml_String ''file''),
                            (''debug_file'', Toml_String ''file:log'')]"
      "Some ''file''" sample_defs "sample_host []" g_pal_control_init "''file:log''" "[]"]
    set_debug_type_cases [of "manifest_of [(''debug_type'', Toml_String ''tty'')]"
      "Some ''tty''" sample_defs "sample_host []" g_pal_control_init "[]" "''tty''"]
  by (simp add: manifest_of_def toml_string_in_def toml_table_in_def toml_raw_in_def
      sample_host_def sample_defs_def g_pal_control_init_def)

subsection \<open>pal_main: the manifest\<close>

text \<open>
  With a normalized path that fits in \<^verbatim>\<open>uri_buf\<close> while the suffix does not, the first
  open is of what \<^verbatim>\<open>strcpy_static\<close> leaves in the buffer; the alternate location and
  the fatal exit follow as before.
\<close>

lemma pal_main_manifest_unfit:
  assumes "DkStreamGetName H (Some e) (URI_MAX D) = (r, name)" "0 \<le> r"
    and "length name + 1 \<le> URI_MAX D"
    and "malloc_copy H name (nat (r + 1)) = Some exec_uri"
    and "get_norm_path H exec_uri (URI_MAX D) = (r', norm)" "0 \<le> r'"
    and "length norm + 1 \<le> URI_MAX D"
    and "URI_MAX D < length norm + length ''.manifest'' + 1"
    and "first = strcpy_static_unfit D norm (length norm) ''.manifest'' (URI_MAX D - length norm)"
    and "alt = URI_PREFIX_FILE D @ ''manifest''"
  shows "pal_main_manifest D H None (Some e) =
           (if fst (DkStreamOpen H first PAL_ACCESS_RDONLY {} {} 0) = 0
            then ([first],
                  Inr (snd (DkStreamOpen H first PAL_ACCESS_RDONLY {} {} 0), None, Some exec_uri))
            else if fst (DkStreamOpen H alt PAL_ACCESS_RDONLY {} {} 0) = 0
            then ([first, alt],
                  Inr (snd (DkStreamOpen H alt PAL_ACCESS_RDONLY {} {} 0), Some alt,
                       Some exec_uri))
            else ([first, alt],
                  Inl (INIT_FAIL (PAL_ERROR_DENIED D) ''Cannot find manifest file'')))"
  using assms
  by (auto simp add: pal_main_manifest_def strcpy_static_def in_buffer_def Let_def
      split: prod.splits)

text \<open>
  C8. Without a manifest handle and without an executable handle \<^verbatim>\<open>pal_main\<close> ends
  with "Must have manifest or executable". Without a manifest handle and with an
  executable handle whose name is obtained and normalized, the name and the
  normalized path with the suffix fitting in \<^verbatim>\<open>uri_buf\<close>, it opens the normalized name
  with \<^verbatim>\<open>.manifest\<close> appended; when that fails it opens the fixed alternate location;
  when both fail it ends with "Cannot find manifest file".
\<close>

theorem pal_main_manifest_resolution:
  "pal_main_manifest D H None None
     = ([], Inl (INIT_FAIL (PAL_ERROR_INVAL D) ''Must have manifest or executable''))
   \<and> (DkStreamGetName H (Some e) (URI_MAX D) = (r, name) \<and> 0 \<le> r
        \<and> length name + 1 \<le> URI_MAX D
        \<and> malloc_copy H name (nat (r + 1)) = Some exec_uri
        \<and> get_norm_path H exec_uri (URI_MAX D) = (r', norm) \<and> 0 \<le> r'
        \<and> length norm + length ''.manifest'' + 1 \<le> URI_MAX D
        \<and> first = norm @ ''.manifest'' \<and> alt = URI_PREFIX_FILE D @ ''manifest''
      \<longrightarrow> pal_main_manifest D H None (Some e) =
           (if fst (DkStreamOpen H first PAL_ACCESS_RDONLY {} {} 0) = 0
            then ([first],
                  Inr (snd (DkStreamOpen H first PAL_ACCESS_RDONLY {} {} 0), None, Some exec_uri))
            else if fst (DkStreamOpen H alt PAL_ACCESS_RDONLY {} {} 0) = 0
            then ([first, alt],
                  Inr (snd (DkStreamOpen H alt PAL_ACCESS_RDONLY {} {} 0), Some alt,
                       Some exec_uri))
            else ([first, alt],
                  Inl (INIT_FAIL (PAL_ERROR_DENIED D) ''Cannot find manifest file''))))"
  by (auto simp add: pal_main_manifest_def strcpy_static_def in_buffer_def Let_def
      split: prod.splits)

theorem pal_main_manifest_resolution_witness:
  "pal_main_manifest sample_defs (sample_host_open (\<lambda>uri. (- 9, None))) None (Some 5)
     = ([''file:prog.manifest'', ''file:manifest''], Inl (INIT_FAIL 6 ''Cannot find manifest file''))
   \<and> pal_main_manifest sample_defs
        (sample_host_open (\<lambda>uri. if uri = ''file:manifest'' then (0, Some 4) else (- 9, None)))
        None (Some 5)
     = ([''file:prog.manifest'', ''file:manifest''],
         Inr (Some 4, Some ''file:manifest'', Some ''file:prog''))
   \<and> pal_main_manifest sample_defs (sample_host_open (\<lambda>uri. (0, Some 4))) None (Some 5)
     = ([''file:prog.manifest''], Inr (Some 4, None, Some ''file:prog''))"
  using pal_main_manifest_resolution [of sample_defs "sample_host_open (\<lambda>uri. (- 9, None))"
      5 9 "''file:prog''" "''file:prog''" 0 "''file:prog''" "''file:prog.manifest''"
      "''file:manifest''"]
    pal_main_manifest_resolution [of sample_defs
      "sample_host_open (\<lambda>uri. if uri = ''file:manifest'' then (0, Some 4) else (- 9, None))"
      5 9 "''file:prog''" "''file:prog''" 0 "''file:prog''" "''file:prog.manifest''"
      "''file:manifest''"]
    pal_main_manifest_resolution [of sample_defs "sample_host_open (\<lambda>uri. (0, Some 4))"
      5 9 "''file:prog''" "''file:prog''" 0 "''file:prog''" "''file:prog.manifest''"
      "''file:manifest''"]
  by (simp add: sample_host_open_def sample_host_def sample_defs_def malloc_copy_def)

subsection \<open>pal_main: the arguments\<close>

lemma load_cstring_array_readable:
  assumes "readable_file H uri buf" and "buf = [] \<or> last buf = NUL"
  shows "\<exists>ret\<ge>0. load_cstring_array D H uri res = Inr (ret, split_nul buf)"
proof -
  obtain r hdl where o: "DkStreamOpen H uri PAL_ACCESS_RDONLY {} {} 0 = (r, hdl)"
    by (cases "DkStreamOpen H uri PAL_ACCESS_RDONLY {} {} 0")
  with assms(1) have h: "0 \<le> r" "0 \<le> DkStreamAttributesQueryByHandle H hdl"
    "buf = stream_pending H hdl" "malloc_ok H (length buf)" "0 \<le> DkStreamRead H hdl"
    "malloc_ok H (sizeof_ptr * (count_loop buf (length buf) + 1))" "0 \<le> DkObjectClose H hdl"
    by (auto simp add: readable_file_def)
  show ?thesis
    using load_cstring_array_table [OF o h(1,2,3,4,5) assms(2) h(6)] h(7) by simp
qed

lemma pal_main_argv0_ok:
  assumes "toml_string_in root ''loader.argv0_override'' = (0, a0)"
    and "malloc_ok H (sizeof_ptr * 2)"
  shows "pal_main_argv0 D H (Some root) arguments = Inr (a0 \<noteq> None, argv0_applied a0 arguments)"
  using assms by (cases a0) (simp_all add: pal_main_argv0_def argv0_applied_def)

lemma pal_main_argv_unset:
  assumes "use_cmdline_argv_unset manifest_root" and "argv_src_file_unset manifest_root"
  shows "pal_main_argv D H manifest_root arguments =
    (case pal_main_argv0 D H manifest_root arguments of
       Inl h \<Rightarrow> Inl h
     | Inr (argv0_overridden, arguments) \<Rightarrow>
         if \<not> argv0_overridden \<or> length arguments \<ge> 2
         then Inl (INIT_FAIL (PAL_ERROR_INVAL D)
                (''argv handling wasn't configured in the manifest, but ''
                     @ ''cmdline arguments were specified.''))
         else Inr arguments)"
  using assms
  by (cases manifest_root)
    (auto simp add: pal_main_argv_def pal_main_use_cmdline_argv_def use_cmdline_argv_unset_def
      argv_src_file_unset_def split: sum.splits)

text \<open>
  C1, as the code has it. With \<^verbatim>\<open>loader.argv_src_file\<close> set: when
  \<^verbatim>\<open>loader.insecure__use_cmdline_argv\<close> is 0 or absent and the file loads, the final
  arguments are the sentinel-delimited contents of the file, whatever the host
  supplied; when \<^verbatim>\<open>loader.insecure__use_cmdline_argv\<close> is 1, the final arguments are
  the host's (the first slot replaced by \<^verbatim>\<open>loader.argv0_override\<close>, if set), and the
  file is not consulted.
\<close>

theorem pal_main_argv_src_file:
  assumes "toml_string_in root ''loader.argv_src_file'' = (0, Some argv_src_file)"
    and "toml_string_in root ''loader.argv0_override'' = (0, argv0_override)"
    and "malloc_ok H (sizeof_ptr * 2)"
  shows "(toml_int_in root ''loader.insecure__use_cmdline_argv'' 0 = (0, Some 0)
            \<and> readable_file H argv_src_file buf \<and> (buf = [] \<or> last buf = NUL)
          \<longrightarrow> pal_main_argv D H (Some root) arguments = Inr (split_nul buf))
       \<and> (toml_int_in root ''loader.insecure__use_cmdline_argv'' 0 = (0, Some 1)
          \<longrightarrow> pal_main_argv D H (Some root) arguments
                = Inr (argv0_applied argv0_override arguments))"
proof (intro conjI impI)
  note a0 = pal_main_argv0_ok [OF assms(2,3)]
  {
    assume h: "toml_int_in root ''loader.insecure__use_cmdline_argv'' 0 = (0, Some 0)
            \<and> readable_file H argv_src_file buf \<and> (buf = [] \<or> last buf = NUL)"
    then obtain ret where "0 \<le> ret"
      "load_cstring_array D H argv_src_file (argv0_applied argv0_override arguments)
         = Inr (ret, split_nul buf)"
      using load_cstring_array_readable by blast
    with h show "pal_main_argv D H (Some root) arguments = Inr (split_nul buf)"
      by (simp add: pal_main_argv_def a0 pal_main_use_cmdline_argv_def assms(1))
  }
  {
    assume "toml_int_in root ''loader.insecure__use_cmdline_argv'' 0 = (0, Some 1)"
    then show "pal_main_argv D H (Some root) arguments
                = Inr (argv0_applied argv0_override arguments)"
      by (simp add: pal_main_argv_def a0 pal_main_use_cmdline_argv_def)
  }
qed

theorem pal_main_argv_src_file_witness:
  "pal_main_argv sample_defs (sample_host [CHR ''a'', NUL, CHR ''b'', NUL])
      (Some (manifest_of [(''argv_src_file'', Toml_String ''file:args'')])) [''prog'', ''x'']
     = Inr [''a'', ''b'']
   \<and> pal_main_argv sample_defs (sample_host [CHR ''a'', NUL, CHR ''b'', NUL])
      (Some (manifest_of [(''insecure__use_cmdline_argv'', Toml_Int 1),
                          (''argv0_override'', Toml_String ''app''),
                          (''argv_src_file'', Toml_String ''file:args'')])) [''prog'', ''x'']
     = Inr [''app'', ''x'']"
  using pal_main_argv_src_file [of "manifest_of [(''argv_src_file'', Toml_String ''file:args'')]" 
      "''file:args''" None "sample_host [CHR ''a'', NUL, CHR ''b'', NUL]"
      "[CHR ''a'', NUL, CHR ''b'', NUL]" sample_defs "[''prog'', ''x'']"]
    pal_main_argv_src_file [of "manifest_of [(''insecure__use_cmdline_argv'', Toml_Int 1),
                          (''argv0_override'', Toml_String ''app''),
                          (''argv_src_file'', Toml_String ''file:args'')]" 
      "''file:args''" "Some ''app''" "sample_host [CHR ''a'', NUL, CHR ''b'', NUL]"
      "[CHR ''a'', NUL, CHR ''b'', NUL]" sample_defs "[''prog'', ''x'']"]
  by (simp add: manifest_of_def toml_string_in_def toml_int_in_def toml_table_in_def
      toml_raw_in_def sample_host_def readable_file_def NUL_def argv0_applied_def)

text \<open>
  C1 as stated fails: with \<^verbatim>\<open>loader.argv_src_file\<close> set and the switch
  \<^verbatim>\<open>loader.insecure__use_cmdline_argv = 1\<close>, the host's arguments are the final ones,
  not the contents of the file.
\<close>

theorem pal_main_argv_src_file_counterexample:
  "toml_string_in (manifest_of [(''insecure__use_cmdline_argv'', Toml_Int 1),
                          (''argv_src_file'', Toml_String ''file:args'')])
       ''loader.argv_src_file'' = (0, Some ''file:args'')
   \<and> readable_file (sample_host [CHR ''a'', NUL, CHR ''b'', NUL]) ''file:args''
         [CHR ''a'', NUL, CHR ''b'', NUL]
   \<and> split_nul [CHR ''a'', NUL, CHR ''b'', NUL] = [''a'', ''b'']
   \<and> pal_main_argv sample_defs (sample_host [CHR ''a'', NUL, CHR ''b'', NUL])
      (Some (manifest_of [(''insecure__use_cmdline_argv'', Toml_Int 1),
                          (''argv_src_file'', Toml_String ''file:args'')])) [''prog'', ''x'']
     = Inr [''prog'', ''x'']"
  by (simp add: manifest_of_def toml_string_in_def toml_int_in_def toml_table_in_def
      toml_raw_in_def sample_host_def readable_file_def NUL_def pal_main_argv_def
      pal_main_argv0_def pal_main_use_cmdline_argv_def count_loop_def sizeof_ptr_def)

text \<open>
  C3. With neither \<^verbatim>\<open>loader.insecure__use_cmdline_argv\<close> nor \<^verbatim>\<open>loader.argv_src_file\<close>
  set, a host argument beyond the first slot is fatal: the configuration failure of
  line 457, or before it the failure to parse \<^verbatim>\<open>loader.argv0_override\<close>. The exception:
  with \<^verbatim>\<open>loader.argv0_override\<close> set and at most one host argument, the arguments are
  the override alone.
\<close>

theorem pal_main_argv_beyond_first:
  assumes "use_cmdline_argv_unset manifest_root" and "argv_src_file_unset manifest_root"
  shows "(length arguments \<ge> 2 \<longrightarrow>
            pal_main_argv D H manifest_root arguments =
              (if \<exists>root. manifest_root = Some root
                    \<and> fst (toml_string_in root ''loader.argv0_override'') < 0
               then Inl (INIT_FAIL_MANIFEST (PAL_ERROR_DENIED D)
                          (''Cannot parse '' @ quoted ''loader.argv0_override''))
               else Inl (INIT_FAIL (PAL_ERROR_INVAL D)
                (''argv handling wasn't configured in the manifest, but ''
                     @ ''cmdline arguments were specified.''))))
       \<and> (length arguments \<le> 1 \<and> malloc_ok H (sizeof_ptr * 2)
            \<and> (\<exists>root. manifest_root = Some root
                  \<and> toml_string_in root ''loader.argv0_override'' = (0, Some argv0))
          \<longrightarrow> pal_main_argv D H manifest_root arguments = Inr [argv0])"
proof (intro conjI impI)
  note u = pal_main_argv_unset [OF assms]
  {
    assume "length arguments \<ge> 2"
    then show "pal_main_argv D H manifest_root arguments =
              (if \<exists>root. manifest_root = Some root
                    \<and> fst (toml_string_in root ''loader.argv0_override'') < 0
               then Inl (INIT_FAIL_MANIFEST (PAL_ERROR_DENIED D)
                          (''Cannot parse '' @ quoted ''loader.argv0_override''))
               else Inl (INIT_FAIL (PAL_ERROR_INVAL D)
                (''argv handling wasn't configured in the manifest, but ''
                     @ ''cmdline arguments were specified.'')))"
      unfolding u
      by (cases manifest_root)
        (auto simp add: pal_main_argv0_def split: prod.splits option.splits)
  }
  {
    assume "length arguments \<le> 1 \<and> malloc_ok H (sizeof_ptr * 2)
            \<and> (\<exists>root. manifest_root = Some root
                  \<and> toml_string_in root ''loader.argv0_override'' = (0, Some argv0))"
    then show "pal_main_argv D H manifest_root arguments = Inr [argv0]"
      unfolding u
      by (cases arguments) (auto simp add: pal_main_argv0_def)
  }
qed

theorem pal_main_argv_beyond_first_witness:
  "pal_main_argv sample_defs (sample_host []) None [''prog'', ''x'']
     = Inl (INIT_FAIL 4 (''argv handling wasn't configured in the manifest, but ''
                     @ ''cmdline arguments were specified.''))
   \<and> pal_main_argv sample_defs (sample_host [])
       (Some (manifest_of [(''argv0_override'', Toml_String ''app'')])) [''prog'', ''x'']
     = Inl (INIT_FAIL 4 (''argv handling wasn't configured in the manifest, but ''
                     @ ''cmdline arguments were specified.''))
   \<and> pal_main_argv sample_defs (sample_host [])
       (Some (manifest_of [(''argv0_override'', Toml_String ''app'')])) [''prog'']
     = Inr [''app'']
   \<and> pal_main_argv sample_defs (sample_host [])
       (Some (manifest_of [(''argv0_override'', Toml_String ''app'')])) []
     = Inr [''app'']"
  using pal_main_argv_beyond_first [of None "[''prog'', ''x'']" sample_defs "sample_host []" "''app''"]
    pal_main_argv_beyond_first [of "Some (manifest_of [(''argv0_override'', Toml_String ''app'')])"
       "[''prog'', ''x'']" sample_defs "sample_host []" "''app''"]
    pal_main_argv_beyond_first [of "Some (manifest_of [(''argv0_override'', Toml_String ''app'')])"
       "[''prog'']" sample_defs "sample_host []" "''app''"]
    pal_main_argv_beyond_first [of "Some (manifest_of [(''argv0_override'', Toml_String ''app'')])"
       "[]" sample_defs "sample_host []" "''app''"]
  by (simp add: manifest_of_def toml_string_in_def toml_int_in_def toml_table_in_def
      toml_raw_in_def sample_host_def sample_defs_def use_cmdline_argv_unset_def
      argv_src_file_unset_def)

text \<open>
  C9. With none of \<^verbatim>\<open>loader.insecure__use_cmdline_argv\<close>, \<^verbatim>\<open>loader.argv_src_file\<close> and
  \<^verbatim>\<open>loader.argv0_override\<close> set, the argument stage is fatal for every host argument
  vector, the empty one and the one with a single argument included.
\<close>

theorem pal_main_argv_no_opt_in:
  assumes "argv0_override_unset manifest_root"
    and "use_cmdline_argv_unset manifest_root"
    and "argv_src_file_unset manifest_root"
  shows "pal_main_argv D H manifest_root arguments =
           Inl (INIT_FAIL (PAL_ERROR_INVAL D)
                  (''argv handling wasn't configured in the manifest, but ''
                     @ ''cmdline arguments were specified.''))"
  unfolding pal_main_argv_unset [OF assms(2,3)]
  using assms(1)
  by (cases manifest_root) (simp_all add: pal_main_argv0_def argv0_override_unset_def)

theorem pal_main_argv_no_opt_in_witness:
  "pal_main_argv sample_defs (sample_host []) (Some (manifest_of [])) [''prog''] =
           Inl (INIT_FAIL 4
                  (''argv handling wasn't configured in the manifest, but ''
                     @ ''cmdline arguments were specified.''))
  \<and> pal_main_argv sample_defs (sample_host []) (Some (manifest_of [])) [] =
           Inl (INIT_FAIL 4
                  (''argv handling wasn't configured in the manifest, but ''
                     @ ''cmdline arguments were specified.''))
  \<and> pal_main_argv sample_defs (sample_host []) None [''prog''] =
           Inl (INIT_FAIL 4
                  (''argv handling wasn't configured in the manifest, but ''
                     @ ''cmdline arguments were specified.''))"
  using pal_main_argv_no_opt_in [of "Some (manifest_of [])" sample_defs "sample_host []" "[''prog'']"]
   pal_main_argv_no_opt_in [of "Some (manifest_of [])" sample_defs "sample_host []" "[]"]
   pal_main_argv_no_opt_in [of None sample_defs "sample_host []" "[''prog'']"]
  by (simp add: manifest_of_def toml_string_in_def toml_int_in_def toml_table_in_def
     toml_raw_in_def sample_defs_def argv0_override_unset_def use_cmdline_argv_unset_def
      argv_src_file_unset_def)

subsection \<open>load_libraries\<close>

lemma split_on_not_Nil: "split_on sep s \<noteq> []"
  by (induction s) (auto split: list.splits)

lemma load_libraries_loop_each:
  "load_libraries_loop H rest library_name loads =
     (case load_each H (filter (\<lambda>s. s \<noteq> [])
              (case split_on CHR '','' rest of s # ss \<Rightarrow> (library_name @ s) # ss
               | [] \<Rightarrow> [library_name]))
      of (ls, h) \<Rightarrow> (loads @ ls, h))"
proof (induction rest arbitrary: library_name loads)
  case Nil
  then show ?case by (simp add: Let_def)
next
  case (Cons c rest)
  obtain s ss where sp: "split_on CHR '','' rest = s # ss"
    using split_on_not_Nil by (cases "split_on CHR '','' rest") auto
  show ?case
  proof (cases "c = CHR '',''")
    case True
    then show ?thesis
      by (simp add: Cons.IH sp Let_def split: prod.splits)
  next
    case False
    then show ?thesis
      by (simp add: Cons.IH sp)
  qed
qed

lemma load_each_ok:
  "\<forall>name\<in>set names. 0 \<le> load_elf_object H name OBJECT_PRELOAD \<Longrightarrow> load_each H names = (names, None)"
  by (induction names) (auto simp add: Let_def)

lemma load_each_fail:
  "\<forall>m\<in>set before. 0 \<le> load_elf_object H m OBJECT_PRELOAD \<Longrightarrow>
   load_elf_object H name OBJECT_PRELOAD < 0 \<Longrightarrow>
   load_each H (before @ name # after)
     = (before @ [name],
        Some (INIT_FAIL (- load_elf_object H name OBJECT_PRELOAD) ''Unable to load preload library''))"
  by (induction before) (auto simp add: Let_def)

lemma load_libraries_each:
  assumes "toml_string_in root ''loader.preload'' = (0, Some preload_str)"
  shows "load_libraries D H (Some root) = load_each H (preload_segments preload_str)"
proof (cases "preload_str = []")
  case True
  with assms show ?thesis by (simp add: load_libraries_def preload_segments_def)
next
  case False
  obtain s ss where sp: "split_on CHR '','' preload_str = s # ss"
    using split_on_not_Nil by (cases "split_on CHR '','' preload_str") auto
  from False assms show ?thesis
    by (simp add: load_libraries_def load_libraries_loop_each preload_segments_def sp
        split: prod.splits)
qed

text \<open>
  C6. \<^verbatim>\<open>load_libraries\<close> loads the non-empty comma-separated segments of
  \<^verbatim>\<open>loader.preload\<close>, one call of \<^verbatim>\<open>load_elf_object\<close> each, from left to right: when
  every load succeeds, the calls are exactly these segments; a load that fails is
  fatal, and the calls are the segments up to that one. For \<^verbatim>\<open>a.so,,b.so\<close> the segments
  are \<^verbatim>\<open>a.so\<close> and \<^verbatim>\<open>b.so\<close>. An absent option, an empty string or no manifest make no
  call.
\<close>

theorem load_libraries_segments:
  assumes "toml_string_in root ''loader.preload'' = (0, preload)"
  shows "(preload = None \<or> preload = Some [] \<longrightarrow> load_libraries D H (Some root) = ([], None))
       \<and> (preload = Some preload_str
            \<and> (\<forall>name\<in>set (preload_segments preload_str).
                  0 \<le> load_elf_object H name OBJECT_PRELOAD)
          \<longrightarrow> load_libraries D H (Some root) = (preload_segments preload_str, None))
       \<and> (preload = Some preload_str
            \<and> preload_segments preload_str = before @ name # after
            \<and> (\<forall>m\<in>set before. 0 \<le> load_elf_object H m OBJECT_PRELOAD)
            \<and> load_elf_object H name OBJECT_PRELOAD < 0
          \<longrightarrow> load_libraries D H (Some root)
                = (before @ [name],
                   Some (INIT_FAIL (- load_elf_object H name OBJECT_PRELOAD)
                           ''Unable to load preload library'')))
       \<and> preload_segments ''a.so,,b.so'' = [''a.so'', ''b.so'']
       \<and> load_libraries D H None = ([], None)"
proof (intro conjI impI)
  show "preload_segments ''a.so,,b.so'' = [''a.so'', ''b.so'']"
    by (simp add: preload_segments_def)
  show "load_libraries D H None = ([], None)"
    by (simp add: load_libraries_def)
  {
    assume "preload = None \<or> preload = Some []"
    with assms show "load_libraries D H (Some root) = ([], None)"
      by (auto simp add: load_libraries_def)
  }
  {
    assume h: "preload = Some preload_str
            \<and> (\<forall>name\<in>set (preload_segments preload_str).
                  0 \<le> load_elf_object H name OBJECT_PRELOAD)"
    with assms have "toml_string_in root ''loader.preload'' = (0, Some preload_str)" by simp
    from load_libraries_each [OF this] h
    show "load_libraries D H (Some root) = (preload_segments preload_str, None)"
      by (simp add: load_each_ok)
  }
  {
    assume h: "preload = Some preload_str
            \<and> preload_segments preload_str = before @ name # after
            \<and> (\<forall>m\<in>set before. 0 \<le> load_elf_object H m OBJECT_PRELOAD)
            \<and> load_elf_object H name OBJECT_PRELOAD < 0"
    with assms have "toml_string_in root ''loader.preload'' = (0, Some preload_str)" by simp
    from load_libraries_each [OF this] h
    show "load_libraries D H (Some root)
                = (before @ [name],
                   Some (INIT_FAIL (- load_elf_object H name OBJECT_PRELOAD)
                           ''Unable to load preload library''))"
      by (simp add: load_each_fail)
  }
qed

theorem load_libraries_segments_witness:
  "load_libraries sample_defs (sample_host [])
      (Some (manifest_of [(''preload'', Toml_String ''a.so,,b.so'')]))
     = ([''a.so'', ''b.so''], None)
   \<and> load_libraries sample_defs (sample_host_load (\<lambda>name. if name = ''b.so'' then - 2 else 0))
      (Some (manifest_of [(''preload'', Toml_String '',a.so,,b.so,c.so'')]))
     = ([''a.so'', ''b.so''], Some (INIT_FAIL 2 ''Unable to load preload library''))
   \<and> load_libraries sample_defs (sample_host []) (Some (manifest_of [])) = ([], None)
   \<and> load_libraries sample_defs (sample_host [])
      (Some (manifest_of [(''preload'', Toml_String [])])) = ([], None)"
  using load_libraries_segments [of "manifest_of [(''preload'', Toml_String ''a.so,,b.so'')]"
      "Some ''a.so,,b.so''" sample_defs "sample_host []" "''a.so,,b.so''" "[]" "[]" "[]"]
    load_libraries_segments [of "manifest_of [(''preload'', Toml_String '',a.so,,b.so,c.so'')]"
      "Some '',a.so,,b.so,c.so''" sample_defs
      "sample_host_load (\<lambda>name. if name = ''b.so'' then - 2 else 0)"
      "'',a.so,,b.so,c.so''" "[''a.so'']" "''b.so''" "[''c.so'']"]
    load_libraries_segments [of "manifest_of []" None sample_defs "sample_host []" "[]" "[]" "[]" "[]"]
    load_libraries_segments [of "manifest_of [(''preload'', Toml_String [])]" "Some []"
       sample_defs "sample_host []" "[]" "[]" "[]" "[]"]
  by (simp add: manifest_of_def toml_string_in_def toml_table_in_def toml_raw_in_def
      sample_host_def sample_host_load_def preload_segments_def)

subsection \<open>insert_envs_from_manifest\<close>

lemma count_envs_None:
  "\<exists>e\<in>set envp. CHR ''='' \<notin> set e \<Longrightarrow> count_envs t envp a b = None"
  by (induction envp arbitrary: a b) auto

lemma count_envs_Some:
  "\<forall>e\<in>set envp. CHR ''='' \<in> set e \<Longrightarrow>
   count_envs t envp a b
     = Some (a + length envp,
             b + length (filter (\<lambda>e. toml_raw_in t (env_key e) \<noteq> None) envp))"
  by (induction envp arbitrary: a b) auto

lemma insert_envs_no_entries:
  "manifest_envs manifest_root = [] \<Longrightarrow>
   insert_envs_from_manifest D H manifest_root envp = Inr (0, envp)"
  by (auto simp add: insert_envs_from_manifest_def manifest_envs_def toml_table_nkval_def
      split: option.splits)

lemma insert_envs_entries:
  assumes "manifest_envs manifest_root \<noteq> []"
  obtains root toml_loader toml_envs where "manifest_root = Some root"
    "toml_table_in root ''loader'' = Some toml_loader"
    "toml_table_in toml_loader ''env'' = Some toml_envs"
    "toml_kval toml_envs = manifest_envs manifest_root"
  using assms by (auto simp add: manifest_envs_def split: option.splits)


lemma pal_main_envs_host:
  assumes "toml_int_in root ''loader.insecure__use_host_env'' 0 = (0, Some 1)"
    and "toml_string_in root ''loader.env_src_file'' = (0, None)"
  shows "pal_main_envs D H (Some root) environments =
     (case insert_envs_from_manifest D H (Some root) environments of
        Inl h \<Rightarrow> Inl h
      | Inr (ret, environments) \<Rightarrow>
          if ret < 0
          then Inl (INIT_FAIL (- ret)
                      ''Inserting environment variables from the manifest failed'')
          else Inr environments)"
  using assms by (simp add: pal_main_envs_def)

text \<open>
  C10. When the manifest declares at least one pair under \<^verbatim>\<open>loader.env\<close>, an entry of
  the environment without \<^verbatim>\<open>=\<close> makes \<^verbatim>\<open>insert_envs_from_manifest\<close> return
  \<^verbatim>\<open>-PAL_ERROR_INVAL\<close>. When it declares none (or there is no manifest), the function
  returns 0 and the environment is as it was, whatever its entries. In \<^verbatim>\<open>pal_main\<close>,
  for a host environment that the manifest forwards, the first is a fatal exit (the
  error codes being positive) and the second hands the entries on as they are.
\<close>

theorem insert_envs_malformed:
  "(manifest_envs manifest_root \<noteq> [] \<and> (\<exists>e\<in>set envp. CHR ''='' \<notin> set e) \<longrightarrow>
      insert_envs_from_manifest D H manifest_root envp = Inr (- PAL_ERROR_INVAL D, envp))
   \<and> (manifest_envs manifest_root = [] \<longrightarrow>
      insert_envs_from_manifest D H manifest_root envp = Inr (0, envp))
   \<and> (manifest_root = Some root
        \<and> toml_int_in root ''loader.insecure__use_host_env'' 0 = (0, Some 1)
        \<and> toml_string_in root ''loader.env_src_file'' = (0, None)
        \<and> 0 < PAL_ERROR_INVAL D
        \<and> manifest_envs manifest_root \<noteq> [] \<and> (\<exists>e\<in>set envp. CHR ''='' \<notin> set e) \<longrightarrow>
      pal_main_envs D H manifest_root envp
        = Inl (INIT_FAIL (PAL_ERROR_INVAL D)
                 ''Inserting environment variables from the manifest failed''))
   \<and> (manifest_root = Some root
        \<and> toml_int_in root ''loader.insecure__use_host_env'' 0 = (0, Some 1)
        \<and> toml_string_in root ''loader.env_src_file'' = (0, None)
        \<and> manifest_envs manifest_root = [] \<longrightarrow>
      pal_main_envs D H manifest_root envp = Inr envp)"
proof -
  have a: "insert_envs_from_manifest D H manifest_root envp = Inr (- PAL_ERROR_INVAL D, envp)"
    if h: "manifest_envs manifest_root \<noteq> [] \<and> (\<exists>e\<in>set envp. CHR ''='' \<notin> set e)"
  proof -
    from h obtain root toml_loader toml_envs where m: "manifest_root = Some root"
      "toml_table_in root ''loader'' = Some toml_loader"
      "toml_table_in toml_loader ''env'' = Some toml_envs"
      "toml_kval toml_envs = manifest_envs manifest_root"
      using insert_envs_entries by blast
    with h have "toml_table_nkval toml_envs > 0" by (simp add: toml_table_nkval_def)
    with h m show ?thesis
      by (simp add: insert_envs_from_manifest_def count_envs_None)
  qed
  have b: "insert_envs_from_manifest D H manifest_root envp = Inr (0, envp)"
    if "manifest_envs manifest_root = []"
    using that by (rule insert_envs_no_entries)
  show ?thesis
  proof (intro conjI impI)
    assume "manifest_envs manifest_root \<noteq> [] \<and> (\<exists>e\<in>set envp. CHR ''='' \<notin> set e)"
    then show "insert_envs_from_manifest D H manifest_root envp
                 = Inr (- PAL_ERROR_INVAL D, envp)"
      by (rule a)
  next
    assume "manifest_envs manifest_root = []"
    then show "insert_envs_from_manifest D H manifest_root envp = Inr (0, envp)"
      by (rule b)
  next
    assume h: "manifest_root = Some root
        \<and> toml_int_in root ''loader.insecure__use_host_env'' 0 = (0, Some 1)
        \<and> toml_string_in root ''loader.env_src_file'' = (0, None)
        \<and> 0 < PAL_ERROR_INVAL D
        \<and> manifest_envs manifest_root \<noteq> [] \<and> (\<exists>e\<in>set envp. CHR ''='' \<notin> set e)"
    then have "insert_envs_from_manifest D H (Some root) envp
                 = Inr (- PAL_ERROR_INVAL D, envp)"
      using a by auto
    with h show "pal_main_envs D H manifest_root envp
        = Inl (INIT_FAIL (PAL_ERROR_INVAL D)
                 ''Inserting environment variables from the manifest failed'')"
      by (simp add: pal_main_envs_host)
  next
    assume h: "manifest_root = Some root
        \<and> toml_int_in root ''loader.insecure__use_host_env'' 0 = (0, Some 1)
        \<and> toml_string_in root ''loader.env_src_file'' = (0, None)
        \<and> manifest_envs manifest_root = []"
    then have "insert_envs_from_manifest D H (Some root) envp = Inr (0, envp)"
      using b by auto
    with h show "pal_main_envs D H manifest_root envp = Inr envp"
      by (simp add: pal_main_envs_host)
  qed
qed

theorem insert_envs_malformed_witness:
  "insert_envs_from_manifest sample_defs (sample_host [])
      (Some (manifest_of_env [(''FOO'', Toml_String ''bar'')])) [''A=1'', ''B'']
     = Inr (- 4, [''A=1'', ''B''])
   \<and> insert_envs_from_manifest sample_defs (sample_host [])
      (Some (manifest_of_env [])) [''A=1'', ''B'']
     = Inr (0, [''A=1'', ''B''])
   \<and> insert_envs_from_manifest sample_defs (sample_host []) None [''A=1'', ''B'']
     = Inr (0, [''A=1'', ''B''])
   \<and> pal_main_envs sample_defs (sample_host [])
        (Some (manifest_of_host_env [(''FOO'', Toml_String ''bar'')])) [''A=1'', ''B'']
     = Inl (INIT_FAIL 4 ''Inserting environment variables from the manifest failed'')
   \<and> pal_main_envs sample_defs (sample_host [])
        (Some (manifest_of_host_env [])) [''A=1'', ''B'']
     = Inr [''A=1'', ''B'']"
  using insert_envs_malformed [of "Some (manifest_of_env [(''FOO'', Toml_String ''bar'')])"
      "[''A=1'', ''B'']" sample_defs "sample_host []" "manifest_of_env []"]
    insert_envs_malformed [of "Some (manifest_of_env [])" "[''A=1'', ''B'']" sample_defs
      "sample_host []" "manifest_of_env []"]
    insert_envs_malformed [of None "[''A=1'', ''B'']" sample_defs "sample_host []"
      "manifest_of_env []"]
    insert_envs_malformed [of "Some (manifest_of_host_env [(''FOO'', Toml_String ''bar'')])"
      "[''A=1'', ''B'']" sample_defs "sample_host []"
      "manifest_of_host_env [(''FOO'', Toml_String ''bar'')]"]
    insert_envs_malformed [of "Some (manifest_of_host_env [])"
      "[''A=1'', ''B'']" sample_defs "sample_host []" "manifest_of_host_env []"]
  by (simp add: manifest_envs_def manifest_of_env_def manifest_of_host_env_def
      toml_table_in_def toml_raw_in_def toml_int_in_def toml_string_in_def sample_defs_def)

lemma copy_envs_survivors:
  assumes "\<forall>e\<in>set envp. CHR ''='' \<in> set e" and "\<forall>n. malloc_ok H n"
    and "length (filter (\<lambda>e. toml_raw_in t (env_key e) = None) envp) \<le> n"
  shows "copy_envs D H t envp (map Ptr pre @ replicate n Null) (length pre)
       = Next (map Ptr (pre @ filter (\<lambda>e. toml_raw_in t (env_key e) = None) envp)
                 @ replicate (n - length (filter (\<lambda>e. toml_raw_in t (env_key e) = None) envp))
                     Null,
               length pre + length (filter (\<lambda>e. toml_raw_in t (env_key e) = None) envp))"
  using assms(1,3)
proof (induction envp arbitrary: pre n)
  case Nil
  then show ?case by simp
next
  case (Cons e envp)
  show ?case
  proof (cases "toml_raw_in t (env_key e) = None")
    case False
    with Cons show ?thesis by (simp del: not_None_eq)
  next
    case True
    with Cons.prems obtain n' where n: "n = Suc n'"
      and le: "length (filter (\<lambda>e. toml_raw_in t (env_key e) = None) envp) \<le> n'"
      by (cases n) auto
    have st: "store_slot (map Ptr pre @ replicate n Null) (length pre) (Ptr e)
             = Some (map Ptr (pre @ [e]) @ replicate n' Null)"
      by (simp add: store_slot_def n list_update_append)
    have "copy_envs D H t envp (map Ptr (pre @ [e]) @ replicate n' Null) (length (pre @ [e]))
       = Next (map Ptr ((pre @ [e]) @ filter (\<lambda>e. toml_raw_in t (env_key e) = None) envp)
                 @ replicate (n' - length (filter (\<lambda>e. toml_raw_in t (env_key e) = None) envp))
                     Null,
               length (pre @ [e]) + length (filter (\<lambda>e. toml_raw_in t (env_key e) = None) envp))"
      using Cons.prems le by (intro Cons.IH) auto
    with True Cons.prems assms(2) show ?thesis
      by (simp add: malloc_copy_def store_slot_def n list_update_append)
  qed
qed

lemma map_of_env_table:
  assumes "distinct (map fst table)" and "i < length table"
  shows "map_of (env_table table) (fst (table ! i)) = Some (Toml_String (snd (table ! i)))"
proof -
  have "(fst (table ! i), Toml_String (snd (table ! i))) \<in> set (env_table table)"
    using assms(2) by (force simp add: env_table_def in_set_conv_nth)
  moreover have "distinct (map fst (env_table table))"
    using assms(1) by (simp add: env_table_def o_def case_prod_unfold)
  ultimately show ?thesis by simp
qed

lemma append_env_entry:
  assumes "toml_kval t = env_table table" and "distinct (map fst table)"
    and "\<forall>n. malloc_ok H n" and "i < length table"
  shows "append_env D H t i (Next (map Ptr pre @ replicate (Suc n) Null, length pre))
       = Next (map Ptr (pre @ [env_entry (table ! i)]) @ replicate n Null, Suc (length pre))"
proof -
  have k: "toml_key_in t i = Some (fst (table ! i))"
    using assms(1,4) by (simp add: toml_key_in_def env_table_def case_prod_unfold)
  have r: "toml_raw_in t (fst (table ! i)) = Some (Toml_String (snd (table ! i)))"
    using assms(1) map_of_env_table [OF assms(2,4)] by (simp add: toml_raw_in_def)
  show ?thesis
    using assms(3)
    by (simp add: append_env_def k r store_slot_def list_update_append env_entry_def
        alloc_concat3_def)
qed

lemma append_env_fold:
  assumes "toml_kval t = env_table table" and "distinct (map fst table)"
    and "\<forall>n. malloc_ok H n" and "m \<le> length table" and "m \<le> n"
  shows "fold (append_env D H t) [0..<m] (Next (map Ptr pre @ replicate n Null, length pre))
       = Next (map Ptr (pre @ map env_entry (take m table)) @ replicate (n - m) Null,
               length pre + m)"
  using assms(4,5)
proof (induction m)
  case 0
  then show ?case by simp
next
  case (Suc m)
  then have IH: "fold (append_env D H t) [0..<m]
                   (Next (map Ptr pre @ replicate n Null, length pre))
       = Next (map Ptr (pre @ map env_entry (take m table)) @ replicate (n - m) Null,
               length pre + m)"
    by simp
  from Suc.prems obtain j where j: "n - m = Suc j" "n - Suc m = j"
    by (metis Suc_diff_Suc Suc_le_lessD)
  have i: "m < length table" using Suc.prems by simp
  have "fold (append_env D H t) [0..<Suc m] (Next (map Ptr pre @ replicate n Null, length pre))
      = append_env D H t m
          (Next (map Ptr (pre @ map env_entry (take m table)) @ replicate (Suc j) Null,
                 length (pre @ map env_entry (take m table))))"
    using i by (simp add: IH j)
  also have "\<dots> = Next (map Ptr ((pre @ map env_entry (take m table)) @ [env_entry (table ! m)])
                         @ replicate j Null,
                       Suc (length (pre @ map env_entry (take m table))))"
    by (rule append_env_entry [OF assms(1,2,3) i])
  finally show ?case
    using i by (simp add: j take_Suc_conv_app_nth)
qed

lemma read_array_id: "read_array id (map Ptr xs @ [Null]) = Some xs"
  using read_array_ptrs [of id xs "[]"] by simp

lemma read_array_id2:
  "read_array id (map Ptr xs @ map (Ptr \<circ> f) ys @ [Null]) = Some (xs @ map f ys)"
  using read_array_id [of "xs @ map f ys"] by simp

lemma raw_in_env_table:
  "toml_kval t = env_table table \<Longrightarrow>
   (toml_raw_in t key = None) = (key \<notin> fst ` set table)"
  by (force simp add: toml_raw_in_def env_table_def map_of_eq_None_iff image_iff)

lemma insert_envs_merge:
  assumes "manifest_envs manifest_root = env_table table" and "table \<noteq> []"
    and "distinct (map fst table)"
    and "\<forall>e\<in>set envp. CHR ''='' \<in> set e"
    and "\<forall>n. malloc_ok H n"
  shows "insert_envs_from_manifest D H manifest_root envp
       = Inr (0, filter (\<lambda>e. env_key e \<notin> fst ` set table) envp @ map env_entry table)"
proof -
  let ?surv = "filter (\<lambda>e. env_key e \<notin> fst ` set table) envp"
  let ?over = "filter (\<lambda>e. env_key e \<in> fst ` set table) envp"
  from assms(1,2) have ne: "manifest_envs manifest_root \<noteq> []" by (simp add: env_table_def)
  then obtain root toml_loader toml_envs where m: "manifest_root = Some root"
      "toml_table_in root ''loader'' = Some toml_loader"
      "toml_table_in toml_loader ''env'' = Some toml_envs"
      "toml_kval toml_envs = manifest_envs manifest_root"
    using insert_envs_entries by blast
  have kv: "toml_kval toml_envs = env_table table" using m(4) assms(1) by simp
  have cnt: "toml_table_nkval toml_envs = int (length table)"
    by (simp add: toml_table_nkval_def kv env_table_def)
  have raw: "(toml_raw_in toml_envs key = None) = (key \<notin> fst ` set table)" for key
    using kv by (rule raw_in_env_table)
  have c: "count_envs toml_envs envp 0 0 = Some (length envp, length ?over)"
    using count_envs_Some [OF assms(4), of toml_envs 0 0] by (simp add: raw)
  have len: "length ?surv + length ?over = length envp"
    using sum_length_filter_compl [of "\<lambda>e. env_key e \<notin> fst ` set table" envp] by simp
  define total where "total = length envp + length table - length ?over"
  have total: "total = length ?surv + length table" using len by (simp add: total_def)
  have cp: "copy_envs D H toml_envs envp (replicate (total + 1) Null) 0
          = Next (map Ptr ?surv @ replicate (length table + 1) Null, length ?surv)"
    using copy_envs_survivors [OF assms(4,5), of toml_envs "total + 1" D "[]"]
    by (simp add: raw total)
  have ap: "fold (append_env D H toml_envs) [0..<length table]
              (Next (map Ptr ?surv @ replicate (length table + 1) Null, length ?surv))
          = Next (map Ptr (?surv @ map env_entry table) @ [Null], total)"
    using append_env_fold [OF kv assms(3,5), of "length table" "length table + 1" D ?surv]
    by (simp add: total)
  have lt: "length ?surv < total" using assms(2) by (simp add: total)
  have cp': "copy_envs D H toml_envs envp (Null # replicate total Null) 0
          = Next (map Ptr ?surv @ Null # replicate (length table) Null, length ?surv)"
    using cp by simp
  have ap': "fold (append_env D H toml_envs) [0..<length table]
              (Next (map Ptr ?surv @ Null # replicate (length table) Null, length ?surv))
          = Next (map Ptr (?surv @ map env_entry table) @ [Null], total)"
    using ap by simp
  show ?thesis
    using assms(2,5) lt
    by (simp add: insert_envs_from_manifest_def m cnt c Let_def total_def [symmetric]
        cp' ap' read_array_id2)
qed

lemma env_key_entry: "CHR ''='' \<notin> set k \<Longrightarrow> env_key (env_entry (k, v)) = k"
  by (simp add: env_key_def env_entry_def takeWhile_append)

lemma filter_fst_distinct:
  "distinct (map fst xs) \<Longrightarrow> (k, v) \<in> set xs \<Longrightarrow> filter (\<lambda>p. fst p = k) xs = [(k, v)]"
proof (induction xs)
  case Nil
  then show ?case by simp
next
  case (Cons x xs)
  show ?case
  proof (cases "x = (k, v)")
    case True
    with Cons.prems have "\<forall>p\<in>set xs. fst p \<noteq> k" by force
    then have "filter (\<lambda>p. fst p = k) xs = []" by (simp add: filter_empty_conv)
    with True show ?thesis by simp
  next
    case False
    with Cons.prems have "(k, v) \<in> set xs" by simp
    have "fst x \<noteq> k"
    proof
      assume "fst x = k"
      moreover have "k \<in> fst ` set xs" using \<open>(k, v) \<in> set xs\<close> by force
      ultimately show False using Cons.prems(1) by simp
    qed
    with Cons \<open>(k, v) \<in> set xs\<close> show ?thesis by simp
  qed
qed

text \<open>
  C2. For an environment of entries with \<^verbatim>\<open>=\<close> and a non-empty table \<^verbatim>\<open>loader.env\<close> of
  strings under unique keys, when the allocations are granted:
  \<^verbatim>\<open>insert_envs_from_manifest\<close> returns 0 and the new environment is the entries whose
  key the table does not declare, in their order, followed by one entry \<^verbatim>\<open>KEY=VALUE\<close>
  per pair of the table, in declaration order. Its length is the original count plus
  the count of the table minus the count of the overwritten entries, a difference
  that is not negative. A key of the table is the key of exactly one entry of the
  result, the one with the manifest's value (for keys without \<^verbatim>\<open>=\<close>).
\<close>

theorem insert_envs_from_manifest_merge:
  assumes "manifest_envs manifest_root = env_table table" and "table \<noteq> []"
    and "distinct (map fst table)"
    and "\<forall>e\<in>set envp. CHR ''='' \<in> set e"
    and "\<forall>n. malloc_ok H n"
    and "kept = filter (\<lambda>e. env_key e \<notin> fst ` set table) envp"
    and "overwritten = length (filter (\<lambda>e. env_key e \<in> fst ` set table) envp)"
  shows "insert_envs_from_manifest D H manifest_root envp
           = Inr (0, kept @ map env_entry table)
       \<and> overwritten \<le> length envp + length table
       \<and> length (kept @ map env_entry table) = length envp + length table - overwritten
       \<and> (\<forall>k v. (k, v) \<in> set table \<and> (\<forall>k'\<in>fst ` set table. CHR ''='' \<notin> set k')
             \<longrightarrow> filter (\<lambda>e. env_key e = k) (kept @ map env_entry table) = [k @ ''='' @ v])"
proof (intro conjI allI impI)
  show "insert_envs_from_manifest D H manifest_root envp = Inr (0, kept @ map env_entry table)"
    unfolding assms(6) by (rule insert_envs_merge [OF assms(1-5)])
  have len: "length kept + overwritten = length envp"
    unfolding assms(6,7)
    using sum_length_filter_compl [of "\<lambda>e. env_key e \<notin> fst ` set table" envp] by simp
  then show "overwritten \<le> length envp + length table" by simp
  from len show "length (kept @ map env_entry table) = length envp + length table - overwritten"
    by simp
next
  fix k v
  assume h: "(k, v) \<in> set table \<and> (\<forall>k'\<in>fst ` set table. CHR ''='' \<notin> set k')"
  then have "k \<in> fst ` set table" by force
  then have a: "filter (\<lambda>e. env_key e = k) kept = []"
    unfolding assms(6) by (auto simp add: filter_empty_conv)
  have "env_key (env_entry p) = fst p" if "p \<in> set table" for p
    using h that env_key_entry [of "fst p" "snd p"] by simp
  then have "filter (\<lambda>e. env_key e = k) (map env_entry table)
           = map env_entry (filter (\<lambda>p. fst p = k) table)"
    by (simp add: filter_map o_def cong: filter_cong)
  also have "\<dots> = [env_entry (k, v)]"
    using filter_fst_distinct [OF assms(3), of k v] h by simp
  finally show "filter (\<lambda>e. env_key e = k) (kept @ map env_entry table) = [k @ ''='' @ v]"
    using a by (simp add: env_entry_def)
qed

theorem insert_envs_from_manifest_merge_witness:
  "insert_envs_from_manifest sample_defs (sample_host [])
      (Some (manifest_of_env [(''FOO'', Toml_String ''bar''), (''NEW'', Toml_String ''x'')]))
      [''A=1'', ''FOO=baz'', ''B=2'']
     = Inr (0, [''A=1'', ''B=2'', ''FOO=bar'', ''NEW=x''])
   \<and> length [''A=1'', ''B=2'', ''FOO=bar'', ''NEW=x'']
       = length [''A=1'', ''FOO=baz'', ''B=2''] + length [(''FOO'', ''bar''), (''NEW'', ''x'')] - 1
   \<and> filter (\<lambda>e. env_key e = ''FOO'') [''A=1'', ''B=2'', ''FOO=bar'', ''NEW=x'']
       = [''FOO=bar'']"
  using insert_envs_from_manifest_merge [of
      "Some (manifest_of_env [(''FOO'', Toml_String ''bar''), (''NEW'', Toml_String ''x'')])"
      "[(''FOO'', ''bar''), (''NEW'', ''x'')]" "[''A=1'', ''FOO=baz'', ''B=2'']" "sample_host []"
      "[''A=1'', ''B=2'']" 1 sample_defs]
  by (simp add: manifest_envs_def manifest_of_env_def toml_table_in_def env_table_def
      sample_host_def env_key_def env_entry_def)

end
